theory Spec2Isabelle
  imports Complex_Main
begin

section \<open>The agent server of packages/cli/src/server/index.ts\<close>

text \<open>
  A shallow embedding of the class \<open>AgentServer\<close>. The object's fields become a record
  that every method takes and returns; a thrown \<open>Error\<close> becomes a value of the type
  \<open>error\<close>, returned beside the state the method leaves behind (a JavaScript method that
  throws keeps the mutations it made before throwing). Calls into the logger, into the
  agent runtimes, into Express, Node's http server and the process object are appended,
  in order, to a trace of events.
\<close>

subsection \<open>JavaScript values and strings\<close>

text \<open>
  The argument of \<open>start\<close> is declared \<open>number\<close>, but the method tests it at run time
  (\<open>!port || typeof port !== "number"\<close>), so it is modelled as a JavaScript value.
  \<open>JSNumber\<close> carries a finite number (the two zeros are one); NaN and the two
  infinities are values of their own.
\<close>

datatype js_value =
    JSUndefined
  | JSNull
  | JSBool bool
  | JSNumber real
  | JSNaN
  | JSInfinity
  | JSNegInfinity
  | JSString string

fun typeof :: "js_value \<Rightarrow> string" where
  "typeof JSUndefined = ''undefined''"
| "typeof JSNull = ''object''"
| "typeof (JSBool b) = ''boolean''"
| "typeof (JSNumber x) = ''number''"
| "typeof JSNaN = ''number''"
| "typeof JSInfinity = ''number''"
| "typeof JSNegInfinity = ''number''"
| "typeof (JSString s) = ''string''"

text \<open>The operand of \<open>!\<close>: a value is falsy when \<open>!v\<close> is true.\<close>

fun falsy :: "js_value \<Rightarrow> bool" where
  "falsy JSUndefined = True"
| "falsy JSNull = True"
| "falsy (JSBool b) = (\<not> b)"
| "falsy (JSNumber x) = (x = 0)"
| "falsy JSNaN = True"
| "falsy JSInfinity = False"
| "falsy JSNegInfinity = False"
| "falsy (JSString s) = (s = [])"

text \<open>\<open>String.prototype.startsWith\<close>, \<open>endsWith\<close>, \<open>includes\<close>.\<close>

definition startsWith :: "string \<Rightarrow> string \<Rightarrow> bool" where
  "startsWith s t = (take (length t) s = t)"

definition endsWith :: "string \<Rightarrow> string \<Rightarrow> bool" where
  "endsWith s t = (length t \<le> length s \<and> drop (length s - length t) s = t)"

fun includes_str :: "string \<Rightarrow> string \<Rightarrow> bool" where
  "includes_str [] t = (t = [])"
| "includes_str (c # cs) t = (startsWith (c # cs) t \<or> includes_str cs t)"

subsection \<open>Agents, plugins and routes\<close>

text \<open>
  A route descriptor: \<open>type\<close> is the string the \<open>switch\<close> of \<open>registerAgent\<close> compares,
  \<open>handler\<close> an opaque reference to the function supplied by the plugin.
\<close>

record route =
  r_type :: string
  r_path :: string
  r_handler :: nat

text \<open>
  A plugin. \<open>routes\<close>, \<open>providers\<close> and \<open>actions\<close> are optional properties (\<open>None\<close> is
  \<open>undefined\<close>); providers and actions are known by their names.
\<close>

record plugin =
  p_name :: string
  p_routes :: "route list option"
  p_providers :: "string list option"
  p_actions :: "string list option"

text \<open>What a call of \<open>agent.stop()\<close> does: it returns (also when the promise it returns
  never settles: the shutdown handler does not await it), or it throws.\<close>

datatype stop_outcome = StopReturns | StopNeverSettles | StopThrows

text \<open>
  The runtime handle. \<open>agentId\<close> is a UUID string, the empty string standing for a
  missing one (both are falsy); \<open>character\<close> is the character's name, \<open>None\<close> when the
  runtime has no character.
\<close>

record runtime =
  agentId :: string
  character :: "string option"
  plugins :: "plugin list"
  routes :: "route list"
  on_stop :: stop_outcome

subsection \<open>Errors and events\<close>

datatype http_method = GET | POST | PUT | DELETE

datatype error =
    InvalidAgent string
  | TypeError string
  | RouteMountError http_method string
  | StaticMountError string
  | InvalidPort js_value
  | ListenError js_value

datatype level = Log | Debug | Info | Warn | Err | Success

datatype arg = S string | N nat | E error | V js_value

datatype signal = SIGTERM | SIGINT

text \<open>
  A logger call is its level, the text of the message and the interpolated values.
  The other events are the calls the server makes on its collaborators.
\<close>

datatype event =
    Logged level string "arg list"
  | RegisterProvider string string
  | RegisterAction string string
  | AgentStop string
  | ListenCall js_value
  | CloseCall
  | SetTimeout nat
  | ProcessOn signal
  | ProcessExit int
  | UnhandledRejection error

subsection \<open>The Express application and the http server\<close>

text \<open>
  The application is its stack of layers, in the order in which \<open>app.use\<close>, \<open>app.get\<close>,
  \<open>app.post\<close>, \<open>app.put\<close> and \<open>app.delete\<close> added them. A route layer holds the
  wrapper \<open>(req, res) => route.handler(req, res, runtime)\<close> as the handler it calls and
  the runtime it passes.
\<close>

datatype layer =
    StaticMount string string
  | RouteBinding http_method string nat runtime

text \<open>Callbacks the server leaves with Node: the two of \<open>gracefulShutdown\<close>, the one of
  \<open>stop\<close>.\<close>

datatype callback = CloseThenExit | ForceExit | LogStopped

record http_server =
  srv_port :: js_value
  srv_listening :: bool
  srv_bound_cb :: bool
  srv_on_close :: "callback list"

datatype handler = GracefulShutdown

record server_state =
  agents :: "(string \<times> runtime) list"
  app :: "layer list"
  server :: "http_server option"
  signal_handlers :: "(signal \<times> handler) list"
  timers :: "(nat \<times> callback) list"
  exited :: "int option"
  node_env :: string
  trace :: "event list"

definition emit :: "event \<Rightarrow> server_state \<Rightarrow> server_state" where
  "emit e s = s\<lparr>trace := trace s @ [e]\<rparr>"

definition logger :: "level \<Rightarrow> string \<Rightarrow> arg list \<Rightarrow> server_state \<Rightarrow> server_state" where
  "logger l m as s = emit (Logged l m as) s"

subsection \<open>The agents map\<close>

text \<open>
  \<open>Map<UUID, IAgentRuntime>\<close>: a JavaScript Map iterates in insertion order, \<open>set\<close> on
  a key it holds replaces the value in place, \<open>delete\<close> removes the entry.
\<close>

fun map_set :: "'k \<Rightarrow> 'v \<Rightarrow> ('k \<times> 'v) list \<Rightarrow> ('k \<times> 'v) list" where
  "map_set k v [] = [(k, v)]"
| "map_set k v ((k', v') # m) =
     (if k' = k then (k, v) # m else (k', v') # map_set k v m)"

definition map_delete :: "'k \<Rightarrow> ('k \<times> 'v) list \<Rightarrow> ('k \<times> 'v) list" where
  "map_delete k m = filter (\<lambda>(k', v). k' \<noteq> k) m"

definition map_get :: "('k \<times> 'v) list \<Rightarrow> 'k \<Rightarrow> 'v option" where
  "map_get m k = map_of m k"

text \<open>The identifiers \<open>this.agents\<close> holds, in iteration order.\<close>

definition agent_ids :: "server_state \<Rightarrow> string list" where
  "agent_ids s = map fst (agents s)"

subsection \<open>registerAgent\<close>

text \<open>
  The TEE plugin step: \<open>runtime.plugins.find(p => p.name === "phala-tee-plugin")\<close>,
  then a \<open>for ... of\<close> over its providers and one over its actions. Iterating
  \<open>undefined\<close> throws a TypeError.
\<close>

definition registerProviders :: "runtime \<Rightarrow> string list \<Rightarrow> server_state \<Rightarrow> server_state" where
  "registerProviders rt ps s =
     fold (\<lambda>p s'. logger Debug ''Registered TEE provider: '' [S p]
                    (emit (RegisterProvider (agentId rt) p) s')) ps s"

definition registerActions :: "runtime \<Rightarrow> string list \<Rightarrow> server_state \<Rightarrow> server_state" where
  "registerActions rt as s =
     fold (\<lambda>a s'. logger Debug ''Registered TEE action: '' [S a]
                    (emit (RegisterAction (agentId rt) a) s')) as s"

definition registerTee :: "runtime \<Rightarrow> server_state \<Rightarrow> error option \<times> server_state" where
  "registerTee rt s =
     (case find (\<lambda>p. p_name p = ''phala-tee-plugin'') (plugins rt) of
        None \<Rightarrow> (None, s)
      | Some tee \<Rightarrow>
          (let s1 = logger Debug ''Found TEE plugin for agent '' [S (agentId rt)] s in
           case p_providers tee of
             None \<Rightarrow> (Some (TypeError ''teePlugin.providers is not iterable''), s1)
           | Some ps \<Rightarrow>
               (let s2 = registerProviders rt ps s1 in
                case p_actions tee of
                  None \<Rightarrow> (Some (TypeError ''teePlugin.actions is not iterable''), s2)
                | Some as \<Rightarrow> (None, registerActions rt as s2))))"

text \<open>
  One Express call \<open>this.app.<method>(routePath, wrapper)\<close>. Express is not part of the
  repository: whether it takes the path or throws is the parameter \<open>accepts\<close>.
\<close>

definition app_method ::
  "(http_method \<Rightarrow> string \<Rightarrow> bool) \<Rightarrow> http_method \<Rightarrow> string \<Rightarrow> nat \<Rightarrow> runtime \<Rightarrow>
     server_state \<Rightarrow> error option \<times> server_state" where
  "app_method accepts m p h rt s =
     (if accepts m p then (None, s\<lparr>app := app s @ [RouteBinding m p h rt]\<rparr>)
      else (Some (RouteMountError m p), s))"

text \<open>
  The body of the loop over \<open>runtime.routes\<close>: the \<open>switch\<close> on \<open>route.type\<close>, case by
  case as the source has it; the \<open>default\<close> case logs and continues; a throw of the
  Express call is logged and thrown again, which ends the loop.
\<close>

definition switch_route ::
  "(http_method \<Rightarrow> string \<Rightarrow> bool) \<Rightarrow> runtime \<Rightarrow> route \<Rightarrow> server_state \<Rightarrow>
     (error option \<times> server_state) option" where
  "switch_route accepts rt r s =
     (if r_type r = ''STATIC'' then Some (app_method accepts GET (r_path r) (r_handler r) rt s)
      else if r_type r = ''GET'' then Some (app_method accepts GET (r_path r) (r_handler r) rt s)
      else if r_type r = ''POST'' then Some (app_method accepts POST (r_path r) (r_handler r) rt s)
      else if r_type r = ''PUT'' then Some (app_method accepts PUT (r_path r) (r_handler r) rt s)
      else if r_type r = ''DELETE'' then
        Some (app_method accepts DELETE (r_path r) (r_handler r) rt s)
      else None)"

definition mountRoute ::
  "(http_method \<Rightarrow> string \<Rightarrow> bool) \<Rightarrow> runtime \<Rightarrow> route \<Rightarrow> server_state \<Rightarrow>
     error option \<times> server_state" where
  "mountRoute accepts rt r s =
     (case switch_route accepts rt r s of
        None \<Rightarrow>
          (None, logger Err ''Unknown route type: '' [S (r_type r), S (r_path r)] s)
      | Some (None, s') \<Rightarrow>
          (None, logger Debug ''Registered route: '' [S (r_type r), S (r_path r)] s')
      | Some (Some e, s') \<Rightarrow>
          (Some e, logger Err ''Failed to register route '' [S (r_type r), S (r_path r), E e] s'))"

fun registerRoutes ::
  "(http_method \<Rightarrow> string \<Rightarrow> bool) \<Rightarrow> runtime \<Rightarrow> route list \<Rightarrow> server_state \<Rightarrow>
     error option \<times> server_state" where
  "registerRoutes accepts rt [] s = (None, s)"
| "registerRoutes accepts rt (r # rs) s =
     (case mountRoute accepts rt r s of
        (None, s') \<Rightarrow> registerRoutes accepts rt rs s'
      | (Some e, s') \<Rightarrow> (Some e, s'))"

text \<open>The outer \<open>catch\<close> of \<open>registerAgent\<close>: log, throw again.\<close>

definition failRegister :: "error \<Rightarrow> server_state \<Rightarrow> error option \<times> server_state" where
  "failRegister e s = (Some e, logger Err ''Failed to register agent:'' [E e] s)"

definition registerAgent ::
  "(http_method \<Rightarrow> string \<Rightarrow> bool) \<Rightarrow> runtime option \<Rightarrow> server_state \<Rightarrow>
     error option \<times> server_state" where
  "registerAgent accepts rto s =
     (case rto of
        None \<Rightarrow> failRegister (InvalidAgent ''Attempted to register null/undefined runtime'') s
      | Some rt \<Rightarrow>
          if agentId rt = [] then failRegister (InvalidAgent ''Runtime missing agentId'') s
          else (case character rt of
            None \<Rightarrow>
              failRegister (InvalidAgent ''Runtime missing character configuration'') s
          | Some name \<Rightarrow>
              (let s1 = logger Debug ''Registering agent: '' [S (agentId rt), S name] s;
                   s2 = s1\<lparr>agents := map_set (agentId rt) rt (agents s1)\<rparr>;
                   s3 = logger Debug ''Agent added to agents map'' [S (agentId rt)] s2
               in case registerTee rt s3 of
                    (Some e, s4) \<Rightarrow> failRegister e s4
                  | (None, s4) \<Rightarrow>
                      (let s5 = logger Debug ''Registered reply action for agent ''
                                  [S (agentId rt)] s4;
                           s6 = logger Debug ''Registering custom routes for agent''
                                  [N (length (routes rt)), S (agentId rt)] s5
                       in case registerRoutes accepts rt (routes rt) s6 of
                            (Some e, s7) \<Rightarrow> failRegister e s7
                          | (None, s7) \<Rightarrow>
                              (None, logger Success ''Successfully registered agent ''
                                       [S (agentId rt), S name] s7)))))"

subsection \<open>unregisterAgent\<close>

text \<open>\<open>!agentId\<close> holds of the empty string (and of \<open>undefined\<close>, which the empty
  string stands for). \<open>Map.prototype.delete\<close> does not throw, so the \<open>catch\<close> is dead.\<close>

definition unregisterAgent :: "string \<Rightarrow> server_state \<Rightarrow> server_state" where
  "unregisterAgent aid s =
     (if aid = [] then
        logger Warn
          ''[AGENT UNREGISTER] Attempted to unregister undefined or invalid agent runtime'' [] s
      else
        logger Debug ''Agent removed from agents map'' [S aid]
          (s\<lparr>agents := map_delete aid (agents s)\<rparr>))"

subsection \<open>start, the shutdown handler and stop\<close>

definition failStart :: "error \<Rightarrow> server_state \<Rightarrow> error option \<times> server_state" where
  "failStart e s = (Some e, logger Err ''Failed to start server:'' [E e] s)"

text \<open>
  \<open>start\<close>. Node's \<open>listen\<close> is not part of the repository: whether the call returns a
  server or throws is the parameter \<open>listens\<close>; the call itself is traced.
\<close>

definition start ::
  "(js_value \<Rightarrow> bool) \<Rightarrow> js_value \<Rightarrow> server_state \<Rightarrow> error option \<times> server_state" where
  "start listens port s =
     (if falsy port \<or> typeof port \<noteq> ''number'' then failStart (InvalidPort port) s
      else
        (let s1 = logger Debug ''Starting server on port '' [V port] s;
             s2 = logger Debug ''Current agents count: '' [N (length (agents s1))] s1;
             s3 = logger Debug ''Environment: '' [S (node_env s2)] s2;
             s4 = emit (ListenCall port) s3
         in if \<not> listens port then failStart (ListenError port) s4
            else
              (let s5 = s4\<lparr>server := Some \<lparr>srv_port = port, srv_listening = True,
                                            srv_bound_cb = True, srv_on_close = []\<rparr>\<rparr>;
                   s6 = emit (ProcessOn SIGTERM)
                          (s5\<lparr>signal_handlers :=
                                signal_handlers s5 @ [(SIGTERM, GracefulShutdown)]\<rparr>);
                   s7 = emit (ProcessOn SIGINT)
                          (s6\<lparr>signal_handlers :=
                                signal_handlers s6 @ [(SIGINT, GracefulShutdown)]\<rparr>)
               in (None, logger Debug ''Shutdown handlers registered'' [] s7))))"

text \<open>The loop of the shutdown handler over \<open>this.agents.entries()\<close>: each \<open>agent.stop()\<close>
  in its own \<open>try\<close>.\<close>

definition stopAgent :: "string \<times> runtime \<Rightarrow> server_state \<Rightarrow> server_state" where
  "stopAgent entry s =
     (let s1 = emit (AgentStop (fst entry)) s
      in if on_stop (snd entry) = StopThrows
         then logger Err ''Error stopping agent '' [S (fst entry)] s1
         else logger Debug ''Stopped agent '' [S (fst entry)] s1)"

definition stopAgents :: "(string \<times> runtime) list \<Rightarrow> server_state \<Rightarrow> server_state" where
  "stopAgents as s = fold stopAgent as s"

text \<open>
  \<open>server.close(cb)\<close>: the server stops listening and \<open>cb\<close> waits for the close event.
\<close>

definition server_close :: "callback \<Rightarrow> http_server \<Rightarrow> server_state \<Rightarrow> server_state" where
  "server_close cb srv s =
     emit CloseCall
       (s\<lparr>server := Some (srv\<lparr>srv_listening := False,
                                srv_on_close := srv_on_close srv @ [cb]\<rparr>)\<rparr>)"

text \<open>
  \<open>gracefulShutdown\<close>: an async function with no \<open>await\<close>, so one call runs to its end
  before anything else does. It reads no flag and sets none. \<open>this.server\<close> is set when
  \<open>start\<close> installs the handler; on a state without a server the call of \<open>close\<close> on
  \<open>undefined\<close> rejects the handler's promise.
\<close>

definition gracefulShutdown :: "server_state \<Rightarrow> server_state" where
  "gracefulShutdown s =
     (let s1 = logger Log ''Received shutdown signal, initiating graceful shutdown...'' [] s;
          s2 = logger Debug ''Stopping all agents...'' [] s1;
          s3 = stopAgents (agents s2) s2
      in case server s3 of
           None \<Rightarrow> emit (UnhandledRejection (TypeError ''this.server is undefined'')) s3
         | Some srv \<Rightarrow>
             (let s4 = server_close CloseThenExit srv s3
              in emit (SetTimeout 5000) (s4\<lparr>timers := timers s4 @ [(5000, ForceExit)]\<rparr>)))"

text \<open>\<open>stop\<close>: closes the server when there is one, with a callback that logs.\<close>

definition stop :: "server_state \<Rightarrow> server_state" where
  "stop s = (case server s of None \<Rightarrow> s | Some srv \<Rightarrow> server_close LogStopped srv s)"

subsection \<open>Node's event loop, as far as the server uses it\<close>

text \<open>
  \<open>process.exit(code)\<close> ends the process: nothing runs after it. The events Node
  delivers to the server: a signal (its registered handlers run in order), the
  listening event of \<open>listen\<close>, the close event of a server that \<open>close\<close> was called on,
  and the expiry of the oldest timer (all timers have the same delay).
\<close>

definition process_exit :: "int \<Rightarrow> server_state \<Rightarrow> server_state" where
  "process_exit c s = (emit (ProcessExit c) s)\<lparr>exited := Some c\<rparr>"

fun run_callback :: "callback \<Rightarrow> server_state \<Rightarrow> server_state" where
  "run_callback CloseThenExit s =
     process_exit 0 (logger Success ''Server closed successfully'' [] s)"
| "run_callback ForceExit s =
     process_exit 1 (logger Err ''Could not close connections in time, forcing shutdown'' [] s)"
| "run_callback LogStopped s = logger Success ''Server stopped'' [] s"

fun run_callbacks :: "callback list \<Rightarrow> server_state \<Rightarrow> server_state" where
  "run_callbacks [] s = s"
| "run_callbacks (c # cs) s =
     (if exited s \<noteq> None then s else run_callbacks cs (run_callback c s))"

fun run_handlers :: "(signal \<times> handler) list \<Rightarrow> server_state \<Rightarrow> server_state" where
  "run_handlers [] s = s"
| "run_handlers ((sg, GracefulShutdown) # hs) s =
     (if exited s \<noteq> None then s else run_handlers hs (gracefulShutdown s))"

text \<open>The callback of \<open>listen\<close>. Every runtime in the map passed the checks of
  \<open>registerAgent\<close>, so it has a character.\<close>

definition listening_cb :: "http_server \<Rightarrow> server_state \<Rightarrow> server_state" where
  "listening_cb srv s =
     (let s1 = logger Success ''REST API bound to 0.0.0.0:'' [V (srv_port srv)] s;
          s2 = logger Debug ''Active agents: '' [N (length (agents s1))] s1
      in fold (\<lambda>(aid, agent) s'.
                 logger Debug ''- Agent ''
                   [S aid, S (case character agent of None \<Rightarrow> [] | Some name \<Rightarrow> name)] s')
           (agents s2) s2)"

datatype loop_event = Signal signal | Listening | ListenerClosed | TimerExpired

definition deliver :: "loop_event \<Rightarrow> server_state \<Rightarrow> server_state" where
  "deliver ev s =
     (if exited s \<noteq> None then s
      else (case ev of
        Signal sg \<Rightarrow> run_handlers (filter (\<lambda>h. fst h = sg) (signal_handlers s)) s
      | Listening \<Rightarrow>
          (case server s of
             None \<Rightarrow> s
           | Some srv \<Rightarrow>
               if srv_bound_cb srv \<and> srv_listening srv
               then listening_cb srv (s\<lparr>server := Some (srv\<lparr>srv_bound_cb := False\<rparr>)\<rparr>)
               else s)
      | ListenerClosed \<Rightarrow>
          (case server s of
             None \<Rightarrow> s
           | Some srv \<Rightarrow>
               if srv_listening srv then s
               else run_callbacks (srv_on_close srv)
                      (s\<lparr>server := Some (srv\<lparr>srv_on_close := []\<rparr>)\<rparr>))
      | TimerExpired \<Rightarrow>
          (case timers s of
             [] \<Rightarrow> s
           | (d, cb) # ts \<Rightarrow> run_callback cb (s\<lparr>timers := ts\<rparr>))))"

definition run :: "loop_event list \<Rightarrow> server_state \<Rightarrow> server_state" where
  "run evs s = fold deliver evs s"

subsection \<open>Static assets of plugins\<close>

text \<open>
  The part of \<open>initializeServer\<close> that serves the plugins' asset directories: a loop
  over the runtimes in \<open>this.agents\<close> and their plugins. The file system and Node's
  module resolution are parameters: \<open>require_resolve\<close> is \<open>require.resolve\<close> with
  \<open>paths: [process.cwd()]\<close> (\<open>None\<close> when it throws). Express is a parameter too:
  \<open>uses\<close> tells whether \<open>app.use\<close> takes a mount path or throws. The body of the loop
  over the plugins is in a \<open>try\<close>: a throw of \<open>app.use\<close> leaves the loop over the
  candidates, the \<open>catch\<close> logs it, and the loop goes on with the next plugin.
\<close>

record fs_env =
  cwd :: string
  require_resolve :: "string \<Rightarrow> string option"
  path_dirname :: "string \<Rightarrow> string"
  path_join :: "string \<Rightarrow> string \<Rightarrow> string"
  existsSync :: "string \<Rightarrow> bool"

definition findPluginDir :: "fs_env \<Rightarrow> plugin \<Rightarrow> string option" where
  "findPluginDir env p =
     (case require_resolve env (p_name p @ ''/package.json'') of
        Some packagePath \<Rightarrow> Some (path_dirname env packagePath)
      | None \<Rightarrow>
          (let pluginDir = path_join env (path_join env (cwd env) ''node_modules'') (p_name p)
           in if existsSync env pluginDir then Some pluginDir else None))"

text \<open>A candidate is the pair of \<open>path\<close> and \<open>mount\<close>.\<close>

definition commonDirs :: "(string \<times> string) list" where
  "commonDirs =
     [(''dist/assets'', ''/assets''),
      (''frontend/dist'', ''/''),
      (''dist/client'', ''/''),
      (''dist'', ''/''),
      (''public'', ''/''),
      (''static'', ''/''),
      (''assets'', ''/assets'')]"

definition isStaticRoute :: "route \<Rightarrow> bool" where
  "isStaticRoute r =
     (r_type r = ''GET'' \<and> (endsWith (r_path r) ''/*'' \<or> \<not> includes_str (r_path r) ''api/''))"

definition basePath :: "route \<Rightarrow> string" where
  "basePath r =
     (let b0 = r_path r;
          b1 = (if endsWith b0 ''/*'' then take (length b0 - 2) b0 else b0)
      in if startsWith b1 ''/'' then drop 1 b1 else b1)"

fun pushRouteDirs :: "route list \<Rightarrow> (string \<times> string) list \<Rightarrow> (string \<times> string) list" where
  "pushRouteDirs [] dirs = dirs"
| "pushRouteDirs (r # rs) dirs =
     pushRouteDirs rs
       (if basePath r \<noteq> [] then dirs @ [(basePath r @ ''/dist'', ''/'' @ basePath r)]
        else dirs)"

definition candidateDirs :: "plugin \<Rightarrow> (string \<times> string) list" where
  "candidateDirs p =
     (case p_routes p of
        None \<Rightarrow> commonDirs
      | Some rs \<Rightarrow> pushRouteDirs (filter isStaticRoute rs) commonDirs)"

text \<open>
  The loop over the candidates. The debug line is logged before \<open>app.use\<close> is called;
  the loop ends at the first candidate whose mount path Express rejects.
\<close>

fun serveDirs ::
  "(string \<Rightarrow> bool) \<Rightarrow> fs_env \<Rightarrow> plugin \<Rightarrow> string \<Rightarrow> (string \<times> string) list \<Rightarrow>
     server_state \<Rightarrow> error option \<times> server_state" where
  "serveDirs uses env p pluginDir [] s = (None, s)"
| "serveDirs uses env p pluginDir (d # ds) s =
     (let dirPath = path_join env pluginDir (fst d)
      in if existsSync env dirPath then
           (let s1 = logger Debug ''Serving static assets for plugin''
                       [S (p_name p), S dirPath, S (snd d)] s
            in if uses (snd d)
               then serveDirs uses env p pluginDir ds
                      (s1\<lparr>app := app s1 @ [StaticMount (snd d) dirPath]\<rparr>)
               else (Some (StaticMountError (snd d)), s1))
         else serveDirs uses env p pluginDir ds s)"

text \<open>The body of the loop over the plugins, with its \<open>catch\<close>.\<close>

definition servePlugin ::
  "(string \<Rightarrow> bool) \<Rightarrow> fs_env \<Rightarrow> plugin \<Rightarrow> server_state \<Rightarrow> server_state" where
  "servePlugin uses env p s =
     (if p_name p = [] then s
      else (case findPluginDir env p of
        None \<Rightarrow> s
      | Some pluginDir \<Rightarrow>
          (case serveDirs uses env p pluginDir (candidateDirs p) s of
             (None, s') \<Rightarrow> s'
           | (Some e, s') \<Rightarrow>
               logger Err ''Error setting up static assets for plugin'' [S (p_name p), E e] s')))"

definition servePluginAssets ::
  "(string \<Rightarrow> bool) \<Rightarrow> fs_env \<Rightarrow> server_state \<Rightarrow> server_state" where
  "servePluginAssets uses env s =
     fold (\<lambda>entry s'. if plugins (snd entry) = [] then s'
                       else fold (servePlugin uses env) (plugins (snd entry)) s')
       (agents s) s"

subsection \<open>Vocabulary of the statements\<close>

text \<open>
  The Express method each case of the \<open>switch\<close> calls, as a table (lemma
  \<open>switch_route_method_of\<close> shows that it is what \<open>switch_route\<close> does), the binding
  a route of a known type gets, and the candidate a route adds to the asset
  directories of its plugin.
\<close>

definition method_of :: "string \<Rightarrow> http_method option" where
  "method_of t =
     (if t = ''STATIC'' then Some GET
      else if t = ''GET'' then Some GET
      else if t = ''POST'' then Some POST
      else if t = ''PUT'' then Some PUT
      else if t = ''DELETE'' then Some DELETE
      else None)"

definition known_type :: "route \<Rightarrow> bool" where
  "known_type r = (method_of (r_type r) \<noteq> None)"


definition route_dir :: "route \<Rightarrow> string \<times> string" where
  "route_dir r = (basePath r @ ''/dist'', ''/'' @ basePath r)"

text \<open>
  The candidates of a list whose directory exists under the plugin's directory, and
  the static mount a candidate gets.
\<close>

definition existing :: "fs_env \<Rightarrow> string \<Rightarrow> (string \<times> string) list \<Rightarrow> (string \<times> string) list" where
  "existing env dir ds = filter (\<lambda>d. existsSync env (path_join env dir (fst d))) ds"

definition static_mount :: "fs_env \<Rightarrow> string \<Rightarrow> string \<times> string \<Rightarrow> layer" where
  "static_mount env dir d = StaticMount (snd d) (path_join env dir (fst d))"

text \<open>
  The events of one run of the shutdown handler on a server that listens; the calls
  in a trace (everything but the logger's lines); the number of \<open>process.exit\<close> calls
  in a trace, and how one step may change it.
\<close>

definition stop_events :: "string \<times> runtime \<Rightarrow> event list" where
  "stop_events entry =
     [AgentStop (fst entry),
      if on_stop (snd entry) = StopThrows
      then Logged Err ''Error stopping agent '' [S (fst entry)]
      else Logged Debug ''Stopped agent '' [S (fst entry)]]"

definition shutdown_events :: "(string \<times> runtime) list \<Rightarrow> event list" where
  "shutdown_events as =
     [Logged Log ''Received shutdown signal, initiating graceful shutdown...'' [],
      Logged Debug ''Stopping all agents...'' []]
     @ concat (map stop_events as) @ [CloseCall, SetTimeout 5000]"

fun is_call :: "event \<Rightarrow> bool" where
  "is_call (Logged l m as) = False"
| "is_call e = True"

definition calls :: "event list \<Rightarrow> event list" where
  "calls t = filter is_call t"

fun is_exit :: "event \<Rightarrow> bool" where
  "is_exit (ProcessExit c) = True"
| "is_exit e = False"

definition exit_calls :: "event list \<Rightarrow> nat" where
  "exit_calls t = length (filter is_exit t)"

definition exit_step :: "server_state \<Rightarrow> server_state \<Rightarrow> bool" where
  "exit_step s s' =
     (if exited s' = None then exit_calls (trace s') = exit_calls (trace s)
      else exit_calls (trace s') = exit_calls (trace s) + 1)"

text \<open>
  What is pending on a server that no one tampered with: only the shutdown handler
  arms timers, and no callback waiting for the close event forces the exit. Every
  operation keeps it (lemmas \<open>pending_ok_new_server\<close> to \<open>pending_ok_unregister\<close>).
\<close>

definition pending_ok :: "server_state \<Rightarrow> bool" where
  "pending_ok s =
     ((case server s of None \<Rightarrow> True | Some srv \<Rightarrow> ForceExit \<notin> set (srv_on_close srv)) \<and>
      list_all (\<lambda>t. snd t = ForceExit) (timers s))"

subsection \<open>Fixtures\<close>

text \<open>
  A server as the constructor leaves its fields. Express, Node's \<open>listen\<close> and the
  file system are parameters of the model; the examples instantiate them: an Express
  that takes every path and one that throws on a given path (for the route methods
  and for \<open>app.use\<close>), a \<open>listen\<close> that throws unless the port is an integer from 0 to
  65535 (Node's check of the port), and a file system given by the list of the
  directories that exist, paths joined with a slash.
\<close>

definition new_server :: "string \<Rightarrow> server_state" where
  "new_server env = \<lparr>agents = [], app = [], server = None, signal_handlers = [], timers = [],
     exited = None, node_env = env, trace = []\<rparr>"

definition accept_all :: "http_method \<Rightarrow> string \<Rightarrow> bool" where
  "accept_all m p = True"

definition reject_path :: "string \<Rightarrow> http_method \<Rightarrow> string \<Rightarrow> bool" where
  "reject_path bad m p = (p \<noteq> bad)"

definition use_all :: "string \<Rightarrow> bool" where
  "use_all p = True"

definition reject_mount :: "string \<Rightarrow> string \<Rightarrow> bool" where
  "reject_mount bad p = (p \<noteq> bad)"

fun node_listen :: "js_value \<Rightarrow> bool" where
  "node_listen (JSNumber p) = (of_int \<lfloor>p\<rfloor> = p \<and> 0 \<le> p \<and> p \<le> 65535)"
| "node_listen v = False"

definition ex_join :: "string \<Rightarrow> string \<Rightarrow> string" where
  "ex_join a b = a @ ''/'' @ b"

definition ex_env :: "string list \<Rightarrow> fs_env" where
  "ex_env dirs =
     \<lparr>cwd = ''/srv'', require_resolve = (\<lambda>p. None), path_dirname = (\<lambda>p. p),
      path_join = ex_join, existsSync = (\<lambda>p. p \<in> set dirs)\<rparr>"

text \<open>
  Runtimes, plugins and servers of the examples.
\<close>

definition ex_route :: "string \<Rightarrow> string \<Rightarrow> nat \<Rightarrow> route" where
  "ex_route t p h = \<lparr>r_type = t, r_path = p, r_handler = h\<rparr>"

definition ex_runtime :: "string \<Rightarrow> string \<Rightarrow> route list \<Rightarrow> runtime" where
  "ex_runtime aid name rs =
     \<lparr>agentId = aid, character = Some name, plugins = [], routes = rs, on_stop = StopReturns\<rparr>"

definition ex_two_routes :: runtime where
  "ex_two_routes = ex_runtime ''a1'' ''Eliza'' [ex_route ''GET'' ''/ok'' 1, ex_route ''POST'' ''/bad'' 2]"


definition ex_registered :: server_state where
  "ex_registered =
     snd (registerAgent accept_all
            (Some (ex_runtime ''a2'' ''Ada'' [ex_route ''POST'' ''/b'' 2]))
            (snd (registerAgent accept_all
                    (Some (ex_runtime ''a1'' ''Eliza'' [ex_route ''GET'' ''/a'' 1]))
                    (new_server ''test''))))"

definition ex_running :: server_state where
  "ex_running = snd (start node_listen (JSNumber 3000) ex_registered)"

definition ex_hanging :: server_state where
  "ex_hanging =
     snd (start node_listen (JSNumber 3000)
            (snd (registerAgent accept_all
                    (Some ((ex_runtime ''a1'' ''Eliza'' [])\<lparr>on_stop := StopNeverSettles\<rparr>))
                    (new_server ''test''))))"

definition ex_plugin :: "string \<Rightarrow> route list \<Rightarrow> plugin" where
  "ex_plugin n rs = \<lparr>p_name = n, p_routes = Some rs, p_providers = None, p_actions = None\<rparr>"

definition ex_portal :: plugin where
  "ex_portal =
     ex_plugin ''portal''
       [ex_route ''GET'' ''/portal/*'' 1, ex_route ''GET'' ''/api/x'' 2,
        ex_route ''POST'' ''/y'' 3, ex_route ''GET'' ''/*'' 4]"

definition ex_broken :: plugin where
  "ex_broken =
     ex_plugin ''broken'' [ex_route ''GET'' ''/(x/*'' 1, ex_route ''GET'' ''/z/*'' 2]"

definition ex_broken_disk :: "string list" where
  "ex_broken_disk =
     [''/srv/node_modules/broken'', ''/srv/node_modules/broken/dist'',
      ''/srv/node_modules/broken/(x/dist'', ''/srv/node_modules/broken/z/dist'']"

definition ex_disk :: "string list" where
  "ex_disk =
     [''/srv/node_modules/portal'', ''/srv/node_modules/portal/dist/assets'',
      ''/srv/node_modules/portal/dist'', ''/srv/node_modules/portal/portal/dist'']"

section \<open>Properties\<close>

subsection \<open>Projections of the state\<close>

lemma emit_fields [simp]:
  "agents (emit e s) = agents s" "app (emit e s) = app s" "server (emit e s) = server s"
  "signal_handlers (emit e s) = signal_handlers s" "timers (emit e s) = timers s"
  "exited (emit e s) = exited s" "node_env (emit e s) = node_env s"
  "trace (emit e s) = trace s @ [e]"
  by (simp_all add: emit_def)

lemma logger_fields [simp]:
  "agents (logger l m as s) = agents s" "app (logger l m as s) = app s"
  "server (logger l m as s) = server s"
  "signal_handlers (logger l m as s) = signal_handlers s" "timers (logger l m as s) = timers s"
  "exited (logger l m as s) = exited s" "node_env (logger l m as s) = node_env s"
  "trace (logger l m as s) = trace s @ [Logged l m as]"
  by (simp_all add: logger_def)

subsection \<open>The agents map\<close>

lemma map_set_keys:
  "map fst (map_set k v m) = (if k \<in> set (map fst m) then map fst m else map fst m @ [k])"
  by (induction m) force+

lemma map_set_lookup: "map_of (map_set k v m) k' = (if k' = k then Some v else map_of m k')"
  by (induction m) auto

lemma count_list_distinct: "distinct xs \<Longrightarrow> count_list xs x = (if x \<in> set xs then 1 else 0)"
  by (induction xs) auto

subsection \<open>What the steps of registerAgent leave unchanged\<close>

lemma registerProviders_fields [simp]:
  "agents (registerProviders rt ps s) = agents s" "app (registerProviders rt ps s) = app s"
  unfolding registerProviders_def by (induction ps arbitrary: s) simp_all

lemma registerActions_fields [simp]:
  "agents (registerActions rt ps s) = agents s" "app (registerActions rt ps s) = app s"
  unfolding registerActions_def by (induction ps arbitrary: s) simp_all

lemma registerTee_fields [simp]:
  "agents (snd (registerTee rt s)) = agents s" "app (snd (registerTee rt s)) = app s"
  by (simp_all add: registerTee_def Let_def split: option.splits)

lemma registerTee_outcome: "fst (registerTee rt s) = fst (registerTee rt s')"
  by (simp add: registerTee_def Let_def split: option.splits)

lemma switch_route_method_of:
  "switch_route accepts rt r s =
     map_option (\<lambda>m. app_method accepts m (r_path r) (r_handler r) rt s) (method_of (r_type r))"
  by (simp add: switch_route_def method_of_def)

lemma mountRoute_agents [simp]: "agents (snd (mountRoute accepts rt r s)) = agents s"
  by (auto simp: mountRoute_def switch_route_method_of app_method_def
        split: option.splits prod.splits if_splits)

lemma registerRoutes_agents: "agents (snd (registerRoutes accepts rt rs s)) = agents s"
proof (induction rs arbitrary: s)
  case Nil
  show ?case by simp
next
  case (Cons r rs)
  have a: "agents (snd (mountRoute accepts rt r s)) = agents s" by simp
  show ?case
    using Cons[of "snd (mountRoute accepts rt r s)"] a
    by (cases "mountRoute accepts rt r s") (auto split: option.splits)
qed

lemma failRegister_simps [simp]:
  "fst (failRegister e s) = Some e" "agents (snd (failRegister e s)) = agents s"
  "app (snd (failRegister e s)) = app s"
  by (simp_all add: failRegister_def)

lemma registerAgent_agents:
  assumes "agentId rt \<noteq> []" "character rt \<noteq> None"
  shows "agents (snd (registerAgent accepts (Some rt) s)) = map_set (agentId rt) rt (agents s)"
proof -
  obtain name where n: "character rt = Some name" using assms by auto
  define s3 where "s3 = logger Debug ''Agent added to agents map'' [S (agentId rt)]
     ((logger Debug ''Registering agent: '' [S (agentId rt), S name] s)
        \<lparr>agents := map_set (agentId rt) rt (agents s)\<rparr>)"
  have a3: "agents s3 = map_set (agentId rt) rt (agents s)" by (simp add: s3_def)
  obtain e4 s4 where t: "registerTee rt s3 = (e4, s4)" by (cases "registerTee rt s3")
  have a4: "agents s4 = agents s3" using registerTee_fields(1)[of rt s3] t by simp
  define s6 where "s6 = logger Debug ''Registering custom routes for agent''
        [N (length (routes rt)), S (agentId rt)]
        (logger Debug ''Registered reply action for agent '' [S (agentId rt)] s4)"
  obtain e7 s7 where r: "registerRoutes accepts rt (routes rt) s6 = (e7, s7)"
    by (cases "registerRoutes accepts rt (routes rt) s6")
  have "agents (snd (registerRoutes accepts rt (routes rt) s6)) = agents s6"
    by (rule registerRoutes_agents)
  then have a7: "agents s7 = agents s4"
    unfolding r by (simp add: s6_def)
  show ?thesis
    using assms n a3 a4 a7 t r
    by (simp add: registerAgent_def Let_def s3_def[symmetric] s6_def[symmetric]
          split: option.splits)
qed

lemma registerAgent_ids:
  assumes "agentId rt \<noteq> []" "character rt \<noteq> None"
  shows "agent_ids (snd (registerAgent accepts (Some rt) s)) =
           (if agentId rt \<in> set (agent_ids s) then agent_ids s else agent_ids s @ [agentId rt])"
  using registerAgent_agents[OF assms] by (simp add: agent_ids_def map_set_keys)

subsection \<open>C4: an identifier is listed once\<close>

text \<open>
  C4. For a runtime that passes the checks of \<open>registerAgent\<close> (an identifier and a
  character), on a map whose keys are distinct: after \<open>registerAgent\<close>, whether it
  returns or throws later, the identifier is listed exactly once and maps to the
  runtime, and the keys are still distinct; registering a second runtime with the same
  identifier leaves the list of identifiers as it was, the identifier listed once and
  mapped to the second runtime.
\<close>

theorem register_lists_identifier_once:
  assumes "agentId rt \<noteq> []" and "character rt \<noteq> None" and "distinct (agent_ids s)"
  shows "(let s' = snd (registerAgent accepts (Some rt) s) in
           count_list (agent_ids s') (agentId rt) = 1 \<and>
           map_get (agents s') (agentId rt) = Some rt \<and>
           distinct (agent_ids s') \<and>
           (\<forall>rt2 accepts2. agentId rt2 = agentId rt \<and> character rt2 \<noteq> None \<longrightarrow>
              (let s'' = snd (registerAgent accepts2 (Some rt2) s') in
                 count_list (agent_ids s'') (agentId rt) = 1 \<and>
                 map_get (agents s'') (agentId rt) = Some rt2 \<and>
                 agent_ids s'' = agent_ids s')))"
proof -
  define s' where "s' = snd (registerAgent accepts (Some rt) s)"
  have ids: "agent_ids s' =
      (if agentId rt \<in> set (agent_ids s) then agent_ids s else agent_ids s @ [agentId rt])"
    unfolding s'_def by (rule registerAgent_ids[OF assms(1,2)])
  have d: "distinct (agent_ids s')" using ids assms(3) by auto
  have m: "agentId rt \<in> set (agent_ids s')" using ids by auto
  have c: "count_list (agent_ids s') (agentId rt) = 1"
    using d m by (simp add: count_list_distinct)
  have g: "map_get (agents s') (agentId rt) = Some rt"
    unfolding s'_def by (simp add: registerAgent_agents[OF assms(1,2)] map_get_def map_set_lookup)
  have again: "count_list (agent_ids s'') (agentId rt) = 1 \<and>
                 map_get (agents s'') (agentId rt) = Some rt2 \<and> agent_ids s'' = agent_ids s'"
    if eq: "agentId rt2 = agentId rt" and ch: "character rt2 \<noteq> None"
      and s'': "s'' = snd (registerAgent accepts2 (Some rt2) s')" for rt2 accepts2 s''
  proof -
    have v: "agentId rt2 \<noteq> []" using eq assms(1) by simp
    have ids2: "agent_ids s'' = agent_ids s'"
      unfolding s'' using registerAgent_ids[OF v ch, of accepts2 s'] m eq by simp
    have "map_get (agents s'') (agentId rt2) = Some rt2"
      unfolding s'' by (simp add: registerAgent_agents[OF v ch] map_get_def map_set_lookup)
    then show ?thesis using ids2 c eq by simp
  qed
  show ?thesis
    unfolding Let_def s'_def[symmetric] using c g d again by blast
qed

theorem register_lists_identifier_once_witness:
  "count_list (agent_ids (snd (registerAgent accept_all
      (Some (ex_runtime ''a1'' ''Eliza'' [])) (new_server ''test'')))) ''a1'' = 1 \<and>
   map_get (agents (snd (registerAgent accept_all (Some (ex_runtime ''a1'' ''Ada'' []))
      (snd (registerAgent accept_all (Some (ex_runtime ''a1'' ''Eliza'' []))
         (new_server ''test'')))))) ''a1'' = Some (ex_runtime ''a1'' ''Ada'' []) \<and>
   agent_ids (snd (registerAgent accept_all (Some (ex_runtime ''a1'' ''Ada'' []))
      (snd (registerAgent accept_all (Some (ex_runtime ''a1'' ''Eliza'' []))
         (new_server ''test''))))) = [''a1'']"
proof -
  have h1: "agentId (ex_runtime ''a1'' ''Eliza'' []) \<noteq> []" by (simp add: ex_runtime_def)
  have h2: "character (ex_runtime ''a1'' ''Eliza'' []) \<noteq> None" by (simp add: ex_runtime_def)
  have h3: "distinct (agent_ids (new_server ''test''))"
    by (simp add: agent_ids_def new_server_def)
  have h4: "agentId (ex_runtime ''a1'' ''Ada'' []) = agentId (ex_runtime ''a1'' ''Eliza'' []) \<and>
            character (ex_runtime ''a1'' ''Ada'' []) \<noteq> None" by (simp add: ex_runtime_def)
  have i: "agent_ids (snd (registerAgent accept_all
      (Some (ex_runtime ''a1'' ''Eliza'' [])) (new_server ''test''))) = [''a1'']"
    using registerAgent_ids[OF h1 h2, of accept_all "new_server ''test''"]
    by (simp add: agent_ids_def new_server_def ex_runtime_def)
  show ?thesis
    using register_lists_identifier_once[OF h1 h2 h3, of accept_all] h4 i
    unfolding Let_def by (auto simp: ex_runtime_def)
qed

subsection \<open>C7: unregisterAgent\<close>

lemma map_delete_keys: "map fst (map_delete k m) = filter (\<lambda>k'. k' \<noteq> k) (map fst m)"
  by (induction m) (auto simp: map_delete_def)

lemma map_delete_lookup: "map_of (map_delete k m) k' = (if k' = k then None else map_of m k')"
  by (induction m) (auto simp: map_delete_def)

text \<open>
  C7. \<open>unregisterAgent\<close> with the empty identifier only logs a warning: the map and the
  application are as before. With any other identifier it deletes that key from the
  map and logs one debug line: the identifiers listed are the former ones without it,
  every other key maps to what it mapped to, and the application's stack (every route
  binding and every static mount), the server, the signal handlers, the timers and the
  exit status are unchanged.
\<close>

theorem unregister_removes_only_the_agent:
  "unregisterAgent [] s =
     logger Warn
       ''[AGENT UNREGISTER] Attempted to unregister undefined or invalid agent runtime'' [] s \<and>
   agents (unregisterAgent [] s) = agents s \<and> app (unregisterAgent [] s) = app s \<and>
   (aid \<noteq> [] \<longrightarrow>
      unregisterAgent aid s =
        logger Debug ''Agent removed from agents map'' [S aid]
          (s\<lparr>agents := map_delete aid (agents s)\<rparr>) \<and>
      agent_ids (unregisterAgent aid s) = filter (\<lambda>k. k \<noteq> aid) (agent_ids s) \<and>
      map_get (agents (unregisterAgent aid s)) aid = None \<and>
      (\<forall>k. k \<noteq> aid \<longrightarrow>
         map_get (agents (unregisterAgent aid s)) k = map_get (agents s) k) \<and>
      app (unregisterAgent aid s) = app s \<and>
      server (unregisterAgent aid s) = server s \<and>
      signal_handlers (unregisterAgent aid s) = signal_handlers s \<and>
      timers (unregisterAgent aid s) = timers s \<and>
      exited (unregisterAgent aid s) = exited s)"
  by (simp add: unregisterAgent_def agent_ids_def map_get_def map_delete_keys map_delete_lookup)

lemmas register_eval =
  registerAgent_def registerTee_def registerRoutes.simps mountRoute_def switch_route_def
  app_method_def failRegister_def logger_def emit_def Let_def map_set.simps
  ex_runtime_def ex_route_def new_server_def accept_all_def reject_path_def

lemma ex_registered_agents:
  "agents ex_registered =
     [(''a1'', ex_runtime ''a1'' ''Eliza'' [ex_route ''GET'' ''/a'' 1]),
      (''a2'', ex_runtime ''a2'' ''Ada'' [ex_route ''POST'' ''/b'' 2])]"
  by (simp add: ex_registered_def register_eval)

lemma ex_registered_app:
  "app ex_registered =
     [RouteBinding GET ''/a'' 1 (ex_runtime ''a1'' ''Eliza'' [ex_route ''GET'' ''/a'' 1]),
      RouteBinding POST ''/b'' 2 (ex_runtime ''a2'' ''Ada'' [ex_route ''POST'' ''/b'' 2])]"
  by (simp add: ex_registered_def register_eval)

theorem unregister_removes_only_the_agent_witness:
  "agent_ids (unregisterAgent ''a1'' ex_registered) = [''a2''] \<and>
   app (unregisterAgent ''a1'' ex_registered) = app ex_registered \<and>
   length (app ex_registered) = 2 \<and>
   agents (unregisterAgent [] ex_registered) = agents ex_registered"
  using unregister_removes_only_the_agent[of ex_registered "''a1''"]
  by (simp add: agent_ids_def map_delete_def ex_registered_agents ex_registered_app)

subsection \<open>The loop over the routes\<close>

lemma mountRoute_unknown:
  "method_of (r_type r) = None \<Longrightarrow>
     mountRoute accepts rt r s =
       (None, logger Err ''Unknown route type: '' [S (r_type r), S (r_path r)] s)"
  by (simp add: mountRoute_def switch_route_method_of)

lemma mountRoute_accepted:
  "method_of (r_type r) = Some m \<Longrightarrow> accepts m (r_path r) \<Longrightarrow>
     mountRoute accepts rt r s =
       (None, logger Debug ''Registered route: '' [S (r_type r), S (r_path r)]
                (s\<lparr>app := app s @ [RouteBinding m (r_path r) (r_handler r) rt]\<rparr>))"
  by (simp add: mountRoute_def switch_route_method_of app_method_def)

lemma mountRoute_rejected:
  "method_of (r_type r) = Some m \<Longrightarrow> \<not> accepts m (r_path r) \<Longrightarrow>
     mountRoute accepts rt r s =
       (Some (RouteMountError m (r_path r)),
        logger Err ''Failed to register route ''
          [S (r_type r), S (r_path r), E (RouteMountError m (r_path r))] s)"
  by (simp add: mountRoute_def switch_route_method_of app_method_def)

lemma registerRoutes_rejected:
  "r \<in> set rs \<Longrightarrow> method_of (r_type r) = Some m \<Longrightarrow> \<not> accepts m (r_path r) \<Longrightarrow>
     fst (registerRoutes accepts rt rs s) \<noteq> None"
proof (induction rs arbitrary: s)
  case Nil
  then show ?case by simp
next
  case (Cons x xs)
  show ?case
  proof (cases "method_of (r_type x)")
    case None
    then have "x \<noteq> r" using Cons.prems(2) by auto
    then have "r \<in> set xs" using Cons.prems(1) by simp
    then show ?thesis
      using Cons.IH[OF _ Cons.prems(2,3)] by (simp add: mountRoute_unknown[OF None])
  next
    case (Some mx)
    show ?thesis
    proof (cases "accepts mx (r_path x)")
      case True
      have "r \<in> set xs"
        using Cons.prems True Some by auto
      then show ?thesis
        using Cons.IH[OF _ Cons.prems(2,3)] by (simp add: mountRoute_accepted[of x mx accepts, OF Some True])
    next
      case False
      then show ?thesis by (simp add: mountRoute_rejected[of x mx accepts, OF Some False])
    qed
  qed
qed

lemma registerRoutes_filter_known:
  "fst (registerRoutes accepts rt rs s) = fst (registerRoutes accepts rt' (filter known_type rs) s')"
proof (induction rs arbitrary: s s')
  case Nil
  show ?case by simp
next
  case (Cons x xs)
  show ?case
  proof (cases "method_of (r_type x)")
    case None
    then show ?thesis
      using Cons.IH by (simp add: mountRoute_unknown[OF None] known_type_def)
  next
    case (Some mx)
    show ?thesis
    proof (cases "accepts mx (r_path x)")
      case True
      show ?thesis
        using Cons.IH Some by (simp add: mountRoute_accepted[of x mx accepts, OF Some True] known_type_def)
    next
      case False
      show ?thesis
        using Some by (simp add: mountRoute_rejected[of x mx accepts, OF Some False] known_type_def)
    qed
  qed
qed



lemma registerRoutes_outcome:
  "fst (registerRoutes accepts rt rs s) = fst (registerRoutes accepts rt' rs s')"
  using registerRoutes_filter_known[of accepts rt rs s rt s]
    registerRoutes_filter_known[of accepts rt' rs s' rt s] by simp

lemma registerAgent_outcome:
  assumes "agentId rt \<noteq> []" "character rt \<noteq> None"
  shows "fst (registerAgent accepts (Some rt) s) =
           (case fst (registerTee rt s) of
              Some e \<Rightarrow> Some e
            | None \<Rightarrow> fst (registerRoutes accepts rt (routes rt) s))"
proof -
  obtain name where n: "character rt = Some name" using assms by auto
  define s3 where "s3 = logger Debug ''Agent added to agents map'' [S (agentId rt)]
     ((logger Debug ''Registering agent: '' [S (agentId rt), S name] s)
        \<lparr>agents := map_set (agentId rt) rt (agents s)\<rparr>)"
  obtain e4 s4 where t: "registerTee rt s3 = (e4, s4)" by (cases "registerTee rt s3")
  have e4: "fst (registerTee rt s) = e4"
    using registerTee_outcome[of rt s s3] t by simp
  define s6 where "s6 = logger Debug ''Registering custom routes for agent''
        [N (length (routes rt)), S (agentId rt)]
        (logger Debug ''Registered reply action for agent '' [S (agentId rt)] s4)"
  obtain e7 s7 where r: "registerRoutes accepts rt (routes rt) s6 = (e7, s7)"
    by (cases "registerRoutes accepts rt (routes rt) s6")
  have e7: "fst (registerRoutes accepts rt (routes rt) s) = e7"
    using registerRoutes_outcome[of accepts rt "routes rt" s rt s6] r by simp
  show ?thesis
    using assms n t r e4 e7
    by (simp add: registerAgent_def Let_def s3_def[symmetric] s6_def[symmetric]
          split: option.splits)
qed

subsection \<open>C10: registration is not atomic\<close>

text \<open>
  C10. The runtime is stored in the map before any route is mounted: for a runtime that
  passes the checks and has a route of a known type that Express rejects,
  \<open>registerAgent\<close> throws, and the state it leaves lists the identifier and maps it to
  the runtime.
\<close>

theorem register_throws_after_insertion:
  assumes "agentId rt \<noteq> []" and "character rt \<noteq> None"
    and "r \<in> set (routes rt)" and "method_of (r_type r) = Some m"
    and "\<not> accepts m (r_path r)"
  shows "fst (registerAgent accepts (Some rt) s) \<noteq> None \<and>
         agentId rt \<in> set (agent_ids (snd (registerAgent accepts (Some rt) s))) \<and>
         map_get (agents (snd (registerAgent accepts (Some rt) s))) (agentId rt) = Some rt"
proof -
  have "fst (registerRoutes accepts rt (routes rt) s) \<noteq> None"
    using assms(3,4,5) by (rule registerRoutes_rejected[where accepts=accepts])
  then have thrown: "fst (registerAgent accepts (Some rt) s) \<noteq> None"
    by (simp add: registerAgent_outcome[OF assms(1,2)] split: option.splits)
  have listed: "agentId rt \<in> set (agent_ids (snd (registerAgent accepts (Some rt) s)))"
    by (simp add: registerAgent_ids[OF assms(1,2)])
  have held: "map_get (agents (snd (registerAgent accepts (Some rt) s))) (agentId rt) = Some rt"
    by (simp add: registerAgent_agents[OF assms(1,2)] map_get_def map_set_lookup)
  show ?thesis using thrown listed held by simp
qed

theorem register_throws_after_insertion_witness:
  "fst (registerAgent (reject_path ''/bad'') (Some ex_two_routes) (new_server ''test''))
     = Some (RouteMountError POST ''/bad'') \<and>
   agent_ids (snd (registerAgent (reject_path ''/bad'') (Some ex_two_routes) (new_server ''test'')))
     = [''a1''] \<and>
   map_get (agents (snd (registerAgent (reject_path ''/bad'') (Some ex_two_routes)
     (new_server ''test'')))) (agentId ex_two_routes) = Some ex_two_routes"
proof -
  have h1: "agentId ex_two_routes \<noteq> []" by (simp add: ex_two_routes_def ex_runtime_def)
  have h2: "character ex_two_routes \<noteq> None" by (simp add: ex_two_routes_def ex_runtime_def)
  have h3: "ex_route ''POST'' ''/bad'' 2 \<in> set (routes ex_two_routes)"
    by (simp add: ex_two_routes_def ex_runtime_def)
  have h4: "method_of (r_type (ex_route ''POST'' ''/bad'' 2)) = Some POST"
    by (simp add: method_of_def ex_route_def)
  have h5: "\<not> reject_path ''/bad'' POST (r_path (ex_route ''POST'' ''/bad'' 2))"
    by (simp add: reject_path_def ex_route_def)
  have e: "fst (registerAgent (reject_path ''/bad'') (Some ex_two_routes) (new_server ''test''))
     = Some (RouteMountError POST ''/bad'')"
    by (simp add: ex_two_routes_def register_eval)
  have i: "agent_ids (snd (registerAgent (reject_path ''/bad'') (Some ex_two_routes)
     (new_server ''test''))) = [''a1'']"
    using registerAgent_ids[OF h1 h2, of "reject_path ''/bad''" "new_server ''test''"]
    by (simp add: agent_ids_def new_server_def ex_two_routes_def ex_runtime_def)
  show ?thesis
    using register_throws_after_insertion[of ex_two_routes "ex_route ''POST'' ''/bad'' 2" POST
        "reject_path ''/bad''" "new_server ''test''", OF h1 h2 h3 h4 h5] e i
    by auto
qed

subsection \<open>C5: routes of an unknown type\<close>



subsection \<open>C9: STATIC and GET\<close>

text \<open>
  C9. For every route descriptor, the \<open>switch\<close> does the same with the type STATIC as
  with the type GET: the call \<open>app.get\<close> with the descriptor's path, its handler and
  the runtime. Mounting it under either type has the same outcome and leaves the same
  application stack, which gains one GET binding when Express takes the path. (The
  debug line that follows names the type, so the two logs differ in that word.)
\<close>

theorem static_binds_as_get:
  "switch_route accepts rt (r\<lparr>r_type := ''STATIC''\<rparr>) s =
     switch_route accepts rt (r\<lparr>r_type := ''GET''\<rparr>) s \<and>
   switch_route accepts rt (r\<lparr>r_type := ''GET''\<rparr>) s =
     Some (app_method accepts GET (r_path r) (r_handler r) rt s) \<and>
   fst (mountRoute accepts rt (r\<lparr>r_type := ''STATIC''\<rparr>) s) =
     fst (mountRoute accepts rt (r\<lparr>r_type := ''GET''\<rparr>) s) \<and>
   app (snd (mountRoute accepts rt (r\<lparr>r_type := ''STATIC''\<rparr>) s)) =
     app (snd (mountRoute accepts rt (r\<lparr>r_type := ''GET''\<rparr>) s)) \<and>
   app (snd (mountRoute accepts rt (r\<lparr>r_type := ''GET''\<rparr>) s)) =
     (if accepts GET (r_path r)
      then app s @ [RouteBinding GET (r_path r) (r_handler r) rt] else app s)"
  by (simp add: mountRoute_def switch_route_def app_method_def)

theorem static_binds_as_get_witness:
  "app (snd (mountRoute accept_all (ex_runtime ''a1'' ''Eliza'' []) (ex_route ''STATIC'' ''/p'' 7)
          (new_server ''test''))) =
     [RouteBinding GET ''/p'' 7 (ex_runtime ''a1'' ''Eliza'' [])] \<and>
   app (snd (mountRoute accept_all (ex_runtime ''a1'' ''Eliza'' []) (ex_route ''GET'' ''/p'' 7)
          (new_server ''test''))) =
     [RouteBinding GET ''/p'' 7 (ex_runtime ''a1'' ''Eliza'' [])]"
  using static_binds_as_get[of accept_all "ex_runtime ''a1'' ''Eliza'' []"
      "ex_route ''X'' ''/p'' 7" "new_server ''test''"]
  by (simp add: ex_route_def accept_all_def new_server_def)

subsection \<open>C2: start\<close>

lemma guard_iff:
  "(falsy port \<or> typeof port \<noteq> ''number'') =
     (port \<noteq> JSInfinity \<and> port \<noteq> JSNegInfinity \<and> (\<forall>p. port = JSNumber p \<longrightarrow> p = 0))"
  by (cases port) auto

text \<open>
  C2 (as amended). The check of \<open>start\<close> rejects exactly the values that are falsy or
  not of type number, that is, everything but an infinity or a finite number other
  than 0; it then throws the error "Invalid port number", makes no call of \<open>listen\<close>,
  and leaves the server and the signal handlers as they were. Every other number,
  negative and fractional ones included, is passed to \<open>app.listen\<close>: when that call
  returns, \<open>start\<close> returns, the server is stored and one handler per signal is
  installed; when it throws, \<open>start\<close> throws that error and stores nothing.
\<close>

theorem start_guard_and_listen:
  "(falsy port \<or> typeof port \<noteq> ''number'') =
     (port \<noteq> JSInfinity \<and> port \<noteq> JSNegInfinity \<and> (\<forall>p. port = JSNumber p \<longrightarrow> p = 0)) \<and>
   (falsy port \<or> typeof port \<noteq> ''number'' \<longrightarrow>
      fst (start listens port s) = Some (InvalidPort port) \<and>
      trace (snd (start listens port s)) =
        trace s @ [Logged Err ''Failed to start server:'' [E (InvalidPort port)]] \<and>
      server (snd (start listens port s)) = server s \<and>
      signal_handlers (snd (start listens port s)) = signal_handlers s) \<and>
   (\<not> (falsy port \<or> typeof port \<noteq> ''number'') \<longrightarrow>
      ListenCall port \<in> set (trace (snd (start listens port s))) \<and>
      (listens port \<longrightarrow>
         fst (start listens port s) = None \<and>
         server (snd (start listens port s)) =
           Some \<lparr>srv_port = port, srv_listening = True, srv_bound_cb = True,
                  srv_on_close = []\<rparr> \<and>
         signal_handlers (snd (start listens port s)) =
           signal_handlers s @ [(SIGTERM, GracefulShutdown), (SIGINT, GracefulShutdown)]) \<and>
      (\<not> listens port \<longrightarrow>
         fst (start listens port s) = Some (ListenError port) \<and>
         server (snd (start listens port s)) = server s \<and>
         signal_handlers (snd (start listens port s)) = signal_handlers s))"
proof -
  have a: "fst (start listens port s) = Some (InvalidPort port) \<and>
      trace (snd (start listens port s)) =
        trace s @ [Logged Err ''Failed to start server:'' [E (InvalidPort port)]] \<and>
      server (snd (start listens port s)) = server s \<and>
      signal_handlers (snd (start listens port s)) = signal_handlers s"
    if "falsy port \<or> typeof port \<noteq> ''number''"
    using that by (simp add: start_def failStart_def)
  have b: "ListenCall port \<in> set (trace (snd (start listens port s))) \<and>
      (listens port \<longrightarrow>
         fst (start listens port s) = None \<and>
         server (snd (start listens port s)) =
           Some \<lparr>srv_port = port, srv_listening = True, srv_bound_cb = True,
                  srv_on_close = []\<rparr> \<and>
         signal_handlers (snd (start listens port s)) =
           signal_handlers s @ [(SIGTERM, GracefulShutdown), (SIGINT, GracefulShutdown)]) \<and>
      (\<not> listens port \<longrightarrow>
         fst (start listens port s) = Some (ListenError port) \<and>
         server (snd (start listens port s)) = server s \<and>
         signal_handlers (snd (start listens port s)) = signal_handlers s)"
    if "\<not> (falsy port \<or> typeof port \<noteq> ''number'')"
    using that by (simp add: start_def failStart_def Let_def)
  show ?thesis using guard_iff[of port] a b by blast
qed

theorem start_guard_and_listen_witness:
  "fst (start node_listen JSUndefined (new_server ''test'')) = Some (InvalidPort JSUndefined) \<and>
   fst (start node_listen (JSNumber 0) (new_server ''test'')) = Some (InvalidPort (JSNumber 0)) \<and>
   server (snd (start node_listen (JSNumber 0) (new_server ''test''))) = None \<and>
   fst (start node_listen (JSNumber 3000) (new_server ''test'')) = None \<and>
   server (snd (start node_listen (JSNumber 3000) (new_server ''test''))) =
     Some \<lparr>srv_port = JSNumber 3000, srv_listening = True, srv_bound_cb = True,
            srv_on_close = []\<rparr>"
  using start_guard_and_listen[of JSUndefined node_listen "new_server ''test''"]
    start_guard_and_listen[of "JSNumber 0" node_listen "new_server ''test''"]
    start_guard_and_listen[of "JSNumber 3000" node_listen "new_server ''test''"]
  by (simp add: new_server_def)

text \<open>
  C2 as stated fails at \<open>start(-1)\<close>: the check lets \<open>-1\<close> through, \<open>app.listen(-1)\<close>
  is called, and the error \<open>start\<close> throws is the one of \<open>listen\<close>, not "Invalid port
  number".
\<close>

theorem start_minus_one_counterexample:
  "fst (start node_listen (JSNumber (- 1)) (new_server ''test''))
     = Some (ListenError (JSNumber (- 1))) \<and>
   fst (start node_listen (JSNumber (- 1)) (new_server ''test''))
     \<noteq> Some (InvalidPort (JSNumber (- 1))) \<and>
   ListenCall (JSNumber (- 1))
     \<in> set (trace (snd (start node_listen (JSNumber (- 1)) (new_server ''test''))))"
  by (simp add: start_def failStart_def Let_def)

subsection \<open>The shutdown handler\<close>

lemma stopAgent_eq: "stopAgent entry s = s\<lparr>trace := trace s @ stop_events entry\<rparr>"
  by (simp add: stopAgent_def stop_events_def Let_def logger_def emit_def)

lemma stopAgents_eq: "stopAgents as s = s\<lparr>trace := trace s @ concat (map stop_events as)\<rparr>"
  unfolding stopAgents_def
  by (induction as arbitrary: s) (simp_all add: stopAgent_eq)

lemma gracefulShutdown_server:
  assumes "server s = Some srv"
  shows "gracefulShutdown s =
     s\<lparr>server := Some (srv\<lparr>srv_listening := False,
                            srv_on_close := srv_on_close srv @ [CloseThenExit]\<rparr>),
       timers := timers s @ [(5000, ForceExit)],
       trace := trace s @ shutdown_events (agents s)\<rparr>"
  using assms
  by (simp add: gracefulShutdown_def Let_def stopAgents_eq server_close_def logger_def emit_def
        shutdown_events_def)

lemma gracefulShutdown_no_server:
  assumes "server s = None"
  shows "gracefulShutdown s =
     s\<lparr>trace := trace s @
         [Logged Log ''Received shutdown signal, initiating graceful shutdown...'' [],
          Logged Debug ''Stopping all agents...'' []]
         @ concat (map stop_events (agents s))
         @ [UnhandledRejection (TypeError ''this.server is undefined'')]\<rparr>"
  using assms
  by (simp add: gracefulShutdown_def Let_def stopAgents_eq logger_def emit_def)

lemma exit_calls_append [simp]: "exit_calls (xs @ ys) = exit_calls xs + exit_calls ys"
  by (simp add: exit_calls_def)

lemma exit_calls_stop_events [simp]: "exit_calls (concat (map stop_events as)) = 0"
  by (induction as) (simp_all add: stop_events_def exit_calls_def)

lemma exit_calls_shutdown_events [simp]: "exit_calls (shutdown_events as) = 0"
  using exit_calls_stop_events[of as]
  by (simp add: shutdown_events_def exit_calls_def)

lemma gracefulShutdown_exit:
  "exited (gracefulShutdown s) = exited s \<and>
   exit_calls (trace (gracefulShutdown s)) = exit_calls (trace s)"
proof (cases "server s")
  case None
  show ?thesis
    using exit_calls_stop_events[of "agents s"]
    by (simp add: gracefulShutdown_no_server[OF None] exit_calls_def)
next
  case (Some srv)
  show ?thesis by (simp add: gracefulShutdown_server[OF Some])
qed

subsection \<open>The process exits at most once\<close>

lemma run_callback_exit: "exited s = None \<Longrightarrow> exit_step s (run_callback cb s)"
  by (cases cb) (simp_all add: exit_step_def process_exit_def exit_calls_def)

lemma run_callbacks_exited: "exited s \<noteq> None \<Longrightarrow> run_callbacks cbs s = s"
  by (cases cbs) simp_all

lemma run_callbacks_exit: "exited s = None \<Longrightarrow> exit_step s (run_callbacks cbs s)"
proof (induction cbs arbitrary: s)
  case Nil
  then show ?case by (simp add: exit_step_def)
next
  case (Cons c cs)
  have one: "exit_step s (run_callback c s)" by (rule run_callback_exit[OF Cons.prems])
  show ?case
  proof (cases "exited (run_callback c s) = None")
    case True
    then have "exit_step (run_callback c s) (run_callbacks cs (run_callback c s))"
      by (rule Cons.IH)
    then show ?thesis using one True Cons.prems by (simp add: exit_step_def)
  next
    case False
    then show ?thesis
      using one Cons.prems by (simp add: run_callbacks_exited)
  qed
qed

lemma run_handlers_exit:
  "exited (run_handlers hs s) = exited s \<and>
   exit_calls (trace (run_handlers hs s)) = exit_calls (trace s)"
proof (induction hs s rule: run_handlers.induct)
  case (1 s)
  show ?case by simp
next
  case (2 sg hs s)
  show ?case
  proof (cases "exited s = None")
    case True
    then show ?thesis using 2 gracefulShutdown_exit[of s] by simp
  next
    case False
    then show ?thesis by simp
  qed
qed

lemma fold_keeps_exit:
  assumes "\<And>x s. exited (f x s) = exited s \<and> exit_calls (trace (f x s)) = exit_calls (trace s)"
  shows "exited (fold f xs s) = exited s \<and>
         exit_calls (trace (fold f xs s)) = exit_calls (trace s)"
  by (induction xs arbitrary: s) (simp_all add: assms)

lemma listening_cb_exit:
  "exited (listening_cb srv s) = exited s \<and>
   exit_calls (trace (listening_cb srv s)) = exit_calls (trace s)"
proof -
  define f where "f = (\<lambda>(aid, agent :: runtime) s'. logger Debug ''- Agent ''
              [S aid, S (case character agent of None \<Rightarrow> [] | Some name \<Rightarrow> name)] s')"
  have k: "exited (f x s') = exited s' \<and> exit_calls (trace (f x s')) = exit_calls (trace s')"
    for x s'
    by (cases x) (simp add: f_def exit_calls_def)
  define s2 where "s2 = logger Debug ''Active agents: '' [N (length (agents s))]
          (logger Success ''REST API bound to 0.0.0.0:'' [V (srv_port srv)] s)"
  have eq: "listening_cb srv s = fold f (agents s) s2"
    by (simp add: listening_cb_def Let_def f_def s2_def)
  have "exited s2 = exited s \<and> exit_calls (trace s2) = exit_calls (trace s)"
    by (simp add: s2_def exit_calls_def)
  then show ?thesis
    unfolding eq using fold_keeps_exit[of f "agents s" s2, OF k] by simp
qed

lemma deliver_exited: "exited s \<noteq> None \<Longrightarrow> deliver ev s = s"
  by (simp add: deliver_def)

lemma deliver_exit: "exited s = None \<Longrightarrow> exit_step s (deliver ev s)"
proof (cases ev)
  case (Signal sg)
  assume "exited s = None"
  then show ?thesis
    using run_handlers_exit[of "filter (\<lambda>h. fst h = sg) (signal_handlers s)" s] Signal
    by (simp add: deliver_def exit_step_def)
next
  case Listening
  assume e: "exited s = None"
  show ?thesis
  proof (cases "server s")
    case None
    then show ?thesis using e Listening by (simp add: deliver_def exit_step_def)
  next
    case (Some srv)
    show ?thesis
      using e Listening Some
        listening_cb_exit[of srv "s\<lparr>server := Some (srv\<lparr>srv_bound_cb := False\<rparr>)\<rparr>"]
      by (simp add: deliver_def exit_step_def)
  qed
next
  case ListenerClosed
  assume e: "exited s = None"
  show ?thesis
  proof (cases "server s")
    case None
    then show ?thesis using e ListenerClosed by (simp add: deliver_def exit_step_def)
  next
    case (Some srv)
    have "exit_step (s\<lparr>server := Some (srv\<lparr>srv_on_close := []\<rparr>)\<rparr>)
            (run_callbacks (srv_on_close srv) (s\<lparr>server := Some (srv\<lparr>srv_on_close := []\<rparr>)\<rparr>))"
      by (rule run_callbacks_exit) (simp add: e)
    then show ?thesis
      using e ListenerClosed Some by (simp add: deliver_def exit_step_def)
  qed
next
  case TimerExpired
  assume e: "exited s = None"
  show ?thesis
  proof (cases "timers s")
    case Nil
    then show ?thesis using e TimerExpired by (simp add: deliver_def exit_step_def)
  next
    case (Cons t ts)
    have "exit_step (s\<lparr>timers := ts\<rparr>) (run_callback (snd t) (s\<lparr>timers := ts\<rparr>))"
      by (rule run_callback_exit) (simp add: e)
    then show ?thesis
      using e TimerExpired Cons by (cases t) (simp add: deliver_def exit_step_def)
  qed
qed

lemma run_exited: "exited s \<noteq> None \<Longrightarrow> run evs s = s"
  unfolding run_def by (induction evs) (simp_all add: deliver_exited)

lemma run_exit_once:
  "exit_calls (trace (run evs s)) \<le> exit_calls (trace s) + (if exited s = None then 1 else 0)"
proof (induction evs arbitrary: s)
  case Nil
  show ?case by (simp add: run_def)
next
  case (Cons ev evs)
  show ?case
  proof (cases "exited s = None")
    case True
    have st: "exit_step s (deliver ev s)" by (rule deliver_exit[OF True])
    have r: "run (ev # evs) s = run evs (deliver ev s)" by (simp add: run_def)
    show ?thesis
      unfolding r using Cons.IH[of "deliver ev s"] st True
      by (simp add: exit_step_def split: if_splits)
  next
    case False
    then show ?thesis by (simp add: run_exited)
  qed
qed

subsection \<open>The calls of a trace, and the running example\<close>

lemma calls_append [simp]: "calls (xs @ ys) = calls xs @ calls ys"
  by (simp add: calls_def)

lemma calls_simps [simp]:
  "calls [] = []" "calls (e # t) = (if is_call e then e # calls t else calls t)"
  by (simp_all add: calls_def)

lemma exit_calls_calls: "exit_calls (calls t) = exit_calls t"
proof -
  have "is_exit e \<Longrightarrow> is_call e" for e by (cases e) simp_all
  then have "filter is_exit (filter is_call t) = filter is_exit t"
    by (induction t) auto
  then show ?thesis by (simp add: exit_calls_def calls_def)
qed

lemma calls_shutdown_events:
  "calls (shutdown_events as) = concat (map (\<lambda>e. [AgentStop (fst e)]) as) @ [CloseCall, SetTimeout 5000]"
proof -
  have "calls (concat (map stop_events as)) = concat (map (\<lambda>e. [AgentStop (fst e)]) as)"
    by (induction as) (simp_all add: calls_def stop_events_def)
  then show ?thesis by (simp add: shutdown_events_def calls_def)
qed

lemmas start_eval = start_def failStart_def

lemma ex_registered_fields:
  "server ex_registered = None" "timers ex_registered = []" "exited ex_registered = None"
  "signal_handlers ex_registered = []"
  by (simp_all add: ex_registered_def register_eval)

lemma no_stop_in_registered:
  "calls (trace ex_registered) = []"
  by (simp add: calls_def ex_registered_def register_eval)

lemma ex_running_fields:
  "agents ex_running = agents ex_registered"
  "app ex_running = app ex_registered"
  "server ex_running =
     Some \<lparr>srv_port = JSNumber 3000, srv_listening = True, srv_bound_cb = True, srv_on_close = []\<rparr>"
  "timers ex_running = []" "exited ex_running = None"
  "signal_handlers ex_running = [(SIGTERM, GracefulShutdown), (SIGINT, GracefulShutdown)]"
  by (simp_all add: ex_running_def start_eval Let_def ex_registered_fields)

lemma ex_running_trace:
  "calls (trace ex_running) = [ListenCall (JSNumber 3000), ProcessOn SIGTERM, ProcessOn SIGINT]"
  using no_stop_in_registered
  by (simp add: calls_def ex_running_def start_eval Let_def)

lemma deliver_signal_one:
  assumes "exited s = None" "filter (\<lambda>h. fst h = sg) (signal_handlers s) = [(sg, GracefulShutdown)]"
  shows "deliver (Signal sg) s = gracefulShutdown s"
  using assms by (simp add: deliver_def)

lemma gracefulShutdown_twice:
  assumes "server s = Some srv"
  shows "gracefulShutdown (gracefulShutdown s) =
     s\<lparr>server := Some (srv\<lparr>srv_listening := False,
                            srv_on_close := srv_on_close srv @ [CloseThenExit, CloseThenExit]\<rparr>),
       timers := timers s @ [(5000, ForceExit), (5000, ForceExit)],
       trace := trace s @ shutdown_events (agents s) @ shutdown_events (agents s)\<rparr>"
proof -
  define s1 where "s1 = gracefulShutdown s"
  have e1: "s1 = s\<lparr>server := Some (srv\<lparr>srv_listening := False,
                            srv_on_close := srv_on_close srv @ [CloseThenExit]\<rparr>),
       timers := timers s @ [(5000, ForceExit)],
       trace := trace s @ shutdown_events (agents s)\<rparr>"
    unfolding s1_def by (rule gracefulShutdown_server[OF assms])
  have srv1: "server s1 = Some (srv\<lparr>srv_listening := False,
                            srv_on_close := srv_on_close srv @ [CloseThenExit]\<rparr>)"
    by (simp add: e1)
  show ?thesis
    unfolding s1_def[symmetric] gracefulShutdown_server[OF srv1]
    by (simp add: e1)
qed

subsection \<open>C1: two triggers\<close>

text \<open>
  C1 (as amended). The handler keeps no state: each call on a running server stops
  every agent, calls \<open>close\<close> and arms a timer. Two calls append the events of the drain
  twice, arm two timers and leave two close callbacks; two signals, each with the one
  handler \<open>start\<close> installed, are two such calls. Whatever events follow, the process
  exits at most once, since \<open>process.exit\<close> ends it.
\<close>

theorem each_trigger_runs_the_drain:
  assumes "server s = Some srv"
  shows "trace (gracefulShutdown (gracefulShutdown s)) =
           trace s @ shutdown_events (agents s) @ shutdown_events (agents s) \<and>
         timers (gracefulShutdown (gracefulShutdown s)) =
           timers s @ [(5000, ForceExit), (5000, ForceExit)] \<and>
         server (gracefulShutdown (gracefulShutdown s)) =
           Some (srv\<lparr>srv_listening := False,
                      srv_on_close := srv_on_close srv @ [CloseThenExit, CloseThenExit]\<rparr>) \<and>
         (exited s = None \<and>
          filter (\<lambda>h. fst h = sg1) (signal_handlers s) = [(sg1, GracefulShutdown)] \<and>
          filter (\<lambda>h. fst h = sg2) (signal_handlers s) = [(sg2, GracefulShutdown)] \<longrightarrow>
            run [Signal sg1, Signal sg2] s = gracefulShutdown (gracefulShutdown s)) \<and>
         (exited s = None \<longrightarrow>
            (\<forall>evs. exit_calls (trace (run evs (gracefulShutdown (gracefulShutdown s))))
                     \<le> exit_calls (trace s) + 1))"
proof -
  note tw = gracefulShutdown_twice[OF assms]
  have sig: "run [Signal sg1, Signal sg2] s = gracefulShutdown (gracefulShutdown s)"
    if e: "exited s = None"
      and h1: "filter (\<lambda>h. fst h = sg1) (signal_handlers s) = [(sg1, GracefulShutdown)]"
      and h2: "filter (\<lambda>h. fst h = sg2) (signal_handlers s) = [(sg2, GracefulShutdown)]"
  proof -
    have d1: "deliver (Signal sg1) s = gracefulShutdown s"
      by (rule deliver_signal_one[OF e h1])
    have e1: "exited (gracefulShutdown s) = None"
      using gracefulShutdown_exit[of s] e by simp
    have hs: "signal_handlers (gracefulShutdown s) = signal_handlers s"
      by (simp add: gracefulShutdown_server[OF assms])
    have d2: "deliver (Signal sg2) (gracefulShutdown s) = gracefulShutdown (gracefulShutdown s)"
      by (rule deliver_signal_one[OF e1]) (simp add: hs h2)
    show ?thesis by (simp add: run_def d1 d2)
  qed
  have once: "exit_calls (trace (run evs (gracefulShutdown (gracefulShutdown s))))
                     \<le> exit_calls (trace s) + 1" if e: "exited s = None" for evs
  proof -
    have "exit_calls (trace (gracefulShutdown (gracefulShutdown s))) = exit_calls (trace s)"
      using gracefulShutdown_exit[of s] gracefulShutdown_exit[of "gracefulShutdown s"] by simp
    then show ?thesis
      using run_exit_once[of evs "gracefulShutdown (gracefulShutdown s)"]
      by (simp split: if_splits)
  qed
  show ?thesis using sig once by (simp add: tw)
qed

theorem each_trigger_runs_the_drain_witness:
  "calls (trace (gracefulShutdown (gracefulShutdown ex_running))) =
     [ListenCall (JSNumber 3000), ProcessOn SIGTERM, ProcessOn SIGINT,
      AgentStop ''a1'', AgentStop ''a2'', CloseCall, SetTimeout 5000,
      AgentStop ''a1'', AgentStop ''a2'', CloseCall, SetTimeout 5000] \<and>
   timers (gracefulShutdown (gracefulShutdown ex_running)) = [(5000, ForceExit), (5000, ForceExit)] \<and>
   run [Signal SIGTERM, Signal SIGINT] ex_running = gracefulShutdown (gracefulShutdown ex_running) \<and>
   exit_calls (trace (run [ListenerClosed, TimerExpired, TimerExpired]
      (gracefulShutdown (gracefulShutdown ex_running)))) \<le> 1"
proof -
  have x: "exit_calls (trace ex_running) = 0"
    using exit_calls_calls[of "trace ex_running"]
    by (simp add: ex_running_trace exit_calls_def)
  show ?thesis
    using each_trigger_runs_the_drain[OF ex_running_fields(3), of SIGTERM SIGINT]
      ex_running_trace x
    by (simp add: ex_running_fields ex_registered_agents calls_shutdown_events)
qed

text \<open>
  C1 as stated fails: SIGTERM followed by SIGINT on a running server with two agents
  stops each agent twice and calls \<open>close\<close> twice.
\<close>

theorem two_signals_two_drains_counterexample:
  "calls (trace (run [Signal SIGTERM, Signal SIGINT] ex_running)) =
     [ListenCall (JSNumber 3000), ProcessOn SIGTERM, ProcessOn SIGINT,
      AgentStop ''a1'', AgentStop ''a2'', CloseCall, SetTimeout 5000,
      AgentStop ''a1'', AgentStop ''a2'', CloseCall, SetTimeout 5000] \<and>
   count_list (trace (run [Signal SIGTERM, Signal SIGINT] ex_running)) (AgentStop ''a1'') = 2 \<and>
   count_list (trace (run [Signal SIGTERM, Signal SIGINT] ex_running)) CloseCall = 2"
proof -
  have e1: "exited (gracefulShutdown ex_running) = None"
    using gracefulShutdown_exit[of ex_running] by (simp add: ex_running_fields)
  have hs: "signal_handlers (gracefulShutdown ex_running) = signal_handlers ex_running"
    by (simp add: gracefulShutdown_server[OF ex_running_fields(3)])
  have r: "run [Signal SIGTERM, Signal SIGINT] ex_running =
           gracefulShutdown (gracefulShutdown ex_running)"
    by (simp add: run_def deliver_signal_one ex_running_fields e1 hs)
  have c: "calls (trace (gracefulShutdown (gracefulShutdown ex_running))) =
     [ListenCall (JSNumber 3000), ProcessOn SIGTERM, ProcessOn SIGINT,
      AgentStop ''a1'', AgentStop ''a2'', CloseCall, SetTimeout 5000,
      AgentStop ''a1'', AgentStop ''a2'', CloseCall, SetTimeout 5000]"
    using ex_running_trace
    by (simp add: gracefulShutdown_twice[OF ex_running_fields(3)] ex_running_fields
          ex_registered_agents calls_shutdown_events)
  have k: "count_list t e = count_list (calls t) e" if "is_call e" for t e
    using that by (induction t) (auto simp: calls_def)
  show ?thesis
    unfolding r using c by (simp add: k[of "AgentStop ''a1''"] k[of CloseCall])
qed

subsection \<open>C8: the close event and the timer\<close>

lemma run_callbacks_close_exits:
  "exited s = None \<Longrightarrow> ForceExit \<notin> set cbs \<Longrightarrow>
     exited (run_callbacks (cbs @ [CloseThenExit]) s) = Some 0"
proof (induction cbs arbitrary: s)
  case Nil
  then show ?case by (simp add: process_exit_def)
next
  case (Cons c cs)
  show ?case
  proof (cases c)
    case CloseThenExit
    have "exited (run_callback c s) = Some 0" by (simp add: CloseThenExit process_exit_def)
    then show ?thesis using Cons.prems by (simp add: run_callbacks_exited)
  next
    case ForceExit
    then show ?thesis using Cons.prems by simp
  next
    case LogStopped
    have "exited (run_callback c s) = None" using Cons.prems by (simp add: LogStopped)
    then show ?thesis using Cons.IH[of "run_callback c s"] Cons.prems by simp
  qed
qed

lemma run_cons: "run (ev # evs) s = run evs (deliver ev s)"
  by (simp add: run_def)

text \<open>
  C8. On a running server (no callback that forces an exit waits on the close event,
  every armed timer is a grace timer), after the shutdown handler the process has not
  exited, a timer of 5000 ms is armed, and the first of the two completions decides the
  exit status: the close event gives status 0, the expiry of the timer status 1, and
  nothing delivered afterwards changes it. The outcome of the agents' \<open>stop\<close> calls
  plays no part: the handler does not wait for them.
\<close>

theorem first_completion_decides_exit_status:
  assumes "exited s = None" and "server s = Some srv"
    and "ForceExit \<notin> set (srv_on_close srv)"
    and "\<forall>t\<in>set (timers s). snd t = ForceExit"
  shows "exited (gracefulShutdown s) = None \<and>
         timers (gracefulShutdown s) = timers s @ [(5000, ForceExit)] \<and>
         exited (deliver ListenerClosed (gracefulShutdown s)) = Some 0 \<and>
         exited (deliver TimerExpired (gracefulShutdown s)) = Some 1 \<and>
         (\<forall>evs. exited (run (ListenerClosed # evs) (gracefulShutdown s)) = Some 0) \<and>
         (\<forall>evs. exited (run (TimerExpired # evs) (gracefulShutdown s)) = Some 1)"
proof -
  define s1 where "s1 = gracefulShutdown s"
  have e1: "s1 = s\<lparr>server := Some (srv\<lparr>srv_listening := False,
                            srv_on_close := srv_on_close srv @ [CloseThenExit]\<rparr>),
       timers := timers s @ [(5000, ForceExit)],
       trace := trace s @ shutdown_events (agents s)\<rparr>"
    unfolding s1_def by (rule gracefulShutdown_server[OF assms(2)])
  have x1: "exited s1 = None" by (simp add: e1 assms(1))
  have t1: "timers s1 = timers s @ [(5000, ForceExit)]" by (simp add: e1)
  define s2 where "s2 = s1\<lparr>server := Some ((srv\<lparr>srv_listening := False,
                            srv_on_close := srv_on_close srv @ [CloseThenExit]\<rparr>)
                              \<lparr>srv_on_close := []\<rparr>)\<rparr>"
  have x2: "exited s2 = None" by (simp add: s2_def x1)
  have "deliver ListenerClosed s1 = run_callbacks (srv_on_close srv @ [CloseThenExit]) s2"
    by (simp add: deliver_def e1 s2_def assms(1))
  then have closed: "exited (deliver ListenerClosed s1) = Some 0"
    using run_callbacks_close_exits[OF x2 assms(3)] by simp
  obtain d ts where hd: "timers s1 = (d, ForceExit) # ts"
  proof (cases "timers s")
    case Nil
    then show ?thesis using that t1 by simp
  next
    case (Cons t ts')
    then have "snd t = ForceExit" using assms(4) by simp
    then show ?thesis using that[of "fst t" "ts' @ [(5000, ForceExit)]"] t1 Cons
      by (cases t) simp
  qed
  have timer: "exited (deliver TimerExpired s1) = Some 1"
    using x1 hd by (simp add: deliver_def process_exit_def)
  have after_close: "exited (run (ListenerClosed # evs) s1) = Some 0" for evs
    using closed by (simp add: run_cons run_exited)
  have after_timer: "exited (run (TimerExpired # evs) s1) = Some 1" for evs
    using timer by (simp add: run_cons run_exited)
  show ?thesis
    unfolding s1_def[symmetric] using x1 t1 closed timer after_close after_timer by blast
qed

lemma ex_hanging_fields:
  "server ex_hanging =
     Some \<lparr>srv_port = JSNumber 3000, srv_listening = True, srv_bound_cb = True, srv_on_close = []\<rparr>"
  "timers ex_hanging = []" "exited ex_hanging = None"
  "map (on_stop \<circ> snd) (agents ex_hanging) = [StopNeverSettles]"
  by (simp_all add: ex_hanging_def start_eval register_eval)

theorem first_completion_decides_exit_status_witness:
  "map (on_stop \<circ> snd) (agents ex_hanging) = [StopNeverSettles] \<and>
   exited (gracefulShutdown ex_hanging) = None \<and>
   exited (run [ListenerClosed, TimerExpired] (gracefulShutdown ex_hanging)) = Some 0 \<and>
   exited (run [TimerExpired, ListenerClosed] (gracefulShutdown ex_hanging)) = Some 1"
proof -
  have h3: "ForceExit \<notin> set (srv_on_close
     \<lparr>srv_port = JSNumber 3000, srv_listening = True, srv_bound_cb = True, srv_on_close = []\<rparr>)"
    by simp
  have h4: "\<forall>t\<in>set (timers ex_hanging). snd t = ForceExit"
    by (simp add: ex_hanging_fields)
  show ?thesis
    using first_completion_decides_exit_status[OF ex_hanging_fields(3) ex_hanging_fields(1) h3 h4]
      ex_hanging_fields(4)
    by simp
qed

subsection \<open>C3: stop\<close>

text \<open>
  C3 (as amended). \<open>stop\<close> does nothing when there is no server; otherwise it calls
  \<open>close\<close> on it with a callback that logs "Server stopped". It calls no agent's \<open>stop\<close>,
  arms no timer, and neither it nor its callback exits the process.
\<close>

theorem stop_only_closes_the_listener:
  "(server s = None \<longrightarrow> stop s = s) \<and>
   (\<forall>srv. server s = Some srv \<longrightarrow>
      trace (stop s) = trace s @ [CloseCall] \<and>
      server (stop s) =
        Some (srv\<lparr>srv_listening := False, srv_on_close := srv_on_close srv @ [LogStopped]\<rparr>)) \<and>
   agents (stop s) = agents s \<and> app (stop s) = app s \<and>
   timers (stop s) = timers s \<and> exited (stop s) = exited s \<and>
   signal_handlers (stop s) = signal_handlers s \<and>
   (\<forall>aid. AgentStop aid \<in> set (trace (stop s)) \<longrightarrow> AgentStop aid \<in> set (trace s)) \<and>
   exited (run_callback LogStopped s) = exited s \<and>
   exit_calls (trace (run_callback LogStopped s)) = exit_calls (trace s)"
  by (cases "server s") (simp_all add: stop_def server_close_def exit_calls_def)

theorem stop_only_closes_the_listener_witness:
  "calls (trace (stop ex_running)) =
     [ListenCall (JSNumber 3000), ProcessOn SIGTERM, ProcessOn SIGINT, CloseCall] \<and>
   timers (stop ex_running) = [] \<and> exited (stop ex_running) = None \<and>
   stop (new_server ''test'') = new_server ''test''"
  using stop_only_closes_the_listener[of ex_running]
    stop_only_closes_the_listener[of "new_server ''test''"] ex_running_trace
  by (simp add: ex_running_fields new_server_def)

text \<open>
  C3 as stated fails: on a running server with two agents, \<open>stop\<close> stops no agent, and
  after the close event and any timer expiry the process has not exited; a SIGTERM on
  the same server stops both agents and exits with status 0 at the close event.
\<close>

theorem stop_is_not_shutdown_counterexample:
  "AgentStop ''a1'' \<notin> set (trace (stop ex_running)) \<and>
   AgentStop ''a2'' \<notin> set (trace (stop ex_running)) \<and>
   exited (run [ListenerClosed, TimerExpired] (stop ex_running)) = None \<and>
   calls (trace (run [ListenerClosed, TimerExpired] (stop ex_running))) =
     [ListenCall (JSNumber 3000), ProcessOn SIGTERM, ProcessOn SIGINT, CloseCall] \<and>
   calls (trace (run [Signal SIGTERM, ListenerClosed] ex_running)) =
     [ListenCall (JSNumber 3000), ProcessOn SIGTERM, ProcessOn SIGINT,
      AgentStop ''a1'', AgentStop ''a2'', CloseCall, SetTimeout 5000, ProcessExit 0]"
proof -
  have m: "e \<in> set t \<longleftrightarrow> e \<in> set (calls t)" if "is_call e" for e t
    using that by (simp add: calls_def)
  have st: "stop ex_running =
      ex_running\<lparr>server := Some \<lparr>srv_port = JSNumber 3000, srv_listening = False, srv_bound_cb = True,
                                 srv_on_close = [LogStopped]\<rparr>,
                 trace := trace ex_running @ [CloseCall]\<rparr>"
    by (simp add: stop_def server_close_def emit_def ex_running_fields)
  have c0: "calls (trace (stop ex_running)) =
      [ListenCall (JSNumber 3000), ProcessOn SIGTERM, ProcessOn SIGINT, CloseCall]"
    by (simp add: st ex_running_trace)
  have a: "AgentStop aid \<notin> set (trace (stop ex_running))" for aid
    using c0 by (simp add: m[of "AgentStop aid"])
  have r: "run [ListenerClosed, TimerExpired] (stop ex_running) =
      logger Success ''Server stopped'' []
        ((stop ex_running)\<lparr>server := Some \<lparr>srv_port = JSNumber 3000, srv_listening = False,
             srv_bound_cb = True, srv_on_close = []\<rparr>\<rparr>)"
    by (simp add: run_def deliver_def st ex_running_fields)
  have c1: "calls (trace (run [ListenerClosed, TimerExpired] (stop ex_running))) =
     [ListenCall (JSNumber 3000), ProcessOn SIGTERM, ProcessOn SIGINT, CloseCall]"
    unfolding r using c0 by simp
  have x1: "exited (run [ListenerClosed, TimerExpired] (stop ex_running)) = None"
    unfolding r by (simp add: st ex_running_fields)
  have g: "deliver (Signal SIGTERM) ex_running = gracefulShutdown ex_running"
    by (simp add: deliver_signal_one ex_running_fields)
  have c2: "calls (trace (run [Signal SIGTERM, ListenerClosed] ex_running)) =
     [ListenCall (JSNumber 3000), ProcessOn SIGTERM, ProcessOn SIGINT,
      AgentStop ''a1'', AgentStop ''a2'', CloseCall, SetTimeout 5000, ProcessExit 0]"
    using ex_running_trace
    by (simp add: run_def g gracefulShutdown_server[OF ex_running_fields(3)] deliver_def
          ex_running_fields ex_registered_agents process_exit_def calls_shutdown_events)
  show ?thesis using a c1 x1 c2 by simp
qed

subsection \<open>C6: static assets of plugins\<close>

lemma pushRouteDirs_eq:
  "pushRouteDirs rs dirs = dirs @ map route_dir (filter (\<lambda>r. basePath r \<noteq> []) rs)"
  by (induction rs arbitrary: dirs) (simp_all add: route_dir_def)

lemma serveDirs_app:
  "app (snd (serveDirs uses env p dir ds s)) =
     app s @ map (static_mount env dir) (takeWhile (\<lambda>d. uses (snd d)) (existing env dir ds))"
  by (induction ds arbitrary: s) (simp_all add: Let_def existing_def static_mount_def)

lemma serveDirs_outcome:
  "fst (serveDirs uses env p dir ds s) =
     (case dropWhile (\<lambda>d. uses (snd d)) (existing env dir ds) of
        [] \<Rightarrow> None
      | d # rest \<Rightarrow> Some (StaticMountError (snd d)))"
  by (induction ds arbitrary: s) (simp_all add: Let_def existing_def)

lemma servePlugin_app:
  assumes "p_name p \<noteq> []" and "findPluginDir env p = Some dir"
  shows "app (servePlugin uses env p s) =
     app s @ map (static_mount env dir)
               (takeWhile (\<lambda>d. uses (snd d)) (existing env dir (candidateDirs p)))"
proof -
  obtain e s' where r: "serveDirs uses env p dir (candidateDirs p) s = (e, s')"
    by (cases "serveDirs uses env p dir (candidateDirs p) s")
  have a: "app s' = app s @ map (static_mount env dir)
               (takeWhile (\<lambda>d. uses (snd d)) (existing env dir (candidateDirs p)))"
    using serveDirs_app[of uses env p dir "candidateDirs p" s] r by simp
  show ?thesis
    using assms r a by (cases e) (simp_all add: servePlugin_def)
qed

lemma servePlugin_logs_throw:
  assumes "p_name p \<noteq> []" and "findPluginDir env p = Some dir"
    and "dropWhile (\<lambda>d. uses (snd d)) (existing env dir (candidateDirs p)) = d # rest"
  shows "Logged Err ''Error setting up static assets for plugin''
           [S (p_name p), E (StaticMountError (snd d))] \<in> set (trace (servePlugin uses env p s))"
proof -
  obtain e s' where r: "serveDirs uses env p dir (candidateDirs p) s = (e, s')"
    by (cases "serveDirs uses env p dir (candidateDirs p) s")
  have "e = Some (StaticMountError (snd d))"
    using serveDirs_outcome[of uses env p dir "candidateDirs p" s] r assms(3) by simp
  then show ?thesis
    using assms(1,2) r by (simp add: servePlugin_def)
qed

lemma servePluginAssets_no_agents: "agents s = [] \<Longrightarrow> servePluginAssets uses env s = s"
  by (simp add: servePluginAssets_def)

text \<open>
  C6 (as amended). The candidates of a plugin are the seven fixed ones, in order,
  followed by \<open>(base/dist, /base)\<close> for each route of the plugin, in order, that is of
  type GET, whose path ends in \<open>/*\<close> or does not contain \<open>api/\<close>, and whose base path
  (the path without a trailing \<open>/*\<close> and without one leading slash) is not empty; a
  plugin without routes has the seven only. For a plugin with a name whose directory
  is found, the application gains one static mount for each candidate whose directory
  exists, in the order of the candidates and whatever the earlier candidates were, up
  to the first one whose mount path \<open>app.use\<close> rejects: when Express takes them all,
  every existing candidate is mounted; when it throws at one, that candidate and the
  later ones are not mounted and the error is logged for the plugin.
\<close>

theorem plugin_asset_candidates:
  "candidateDirs p =
     [(''dist/assets'', ''/assets''), (''frontend/dist'', ''/''), (''dist/client'', ''/''),
      (''dist'', ''/''), (''public'', ''/''), (''static'', ''/''), (''assets'', ''/assets'')]
     @ (case p_routes p of
          None \<Rightarrow> []
        | Some rs \<Rightarrow> map route_dir (filter (\<lambda>r. isStaticRoute r \<and> basePath r \<noteq> []) rs)) \<and>
   (p_name p \<noteq> [] \<and> findPluginDir env p = Some dir \<longrightarrow>
      app (servePlugin uses env p s) =
        app s @ map (static_mount env dir)
                  (takeWhile (\<lambda>d. uses (snd d)) (existing env dir (candidateDirs p))) \<and>
      ((\<forall>d\<in>set (existing env dir (candidateDirs p)). uses (snd d)) \<longrightarrow>
         app (servePlugin uses env p s) =
           app s @ map (static_mount env dir) (existing env dir (candidateDirs p))) \<and>
      (\<forall>d rest.
         dropWhile (\<lambda>d. uses (snd d)) (existing env dir (candidateDirs p)) = d # rest \<longrightarrow>
           Logged Err ''Error setting up static assets for plugin''
             [S (p_name p), E (StaticMountError (snd d))]
             \<in> set (trace (servePlugin uses env p s))))"
proof -
  have c: "candidateDirs p =
     [(''dist/assets'', ''/assets''), (''frontend/dist'', ''/''), (''dist/client'', ''/''),
      (''dist'', ''/''), (''public'', ''/''), (''static'', ''/''), (''assets'', ''/assets'')]
     @ (case p_routes p of
          None \<Rightarrow> []
        | Some rs \<Rightarrow> map route_dir (filter (\<lambda>r. isStaticRoute r \<and> basePath r \<noteq> []) rs))"
    by (simp add: candidateDirs_def commonDirs_def pushRouteDirs_eq split: option.splits)
  have m: "app (servePlugin uses env p s) =
        app s @ map (static_mount env dir)
                  (takeWhile (\<lambda>d. uses (snd d)) (existing env dir (candidateDirs p)))"
    if "p_name p \<noteq> []" "findPluginDir env p = Some dir"
    using that by (rule servePlugin_app)
  have all: "takeWhile (\<lambda>d. uses (snd d)) (existing env dir (candidateDirs p)) =
             existing env dir (candidateDirs p)"
    if "\<forall>d\<in>set (existing env dir (candidateDirs p)). uses (snd d)"
    using that by (simp add: takeWhile_eq_all_conv)
  have l: "Logged Err ''Error setting up static assets for plugin''
             [S (p_name p), E (StaticMountError (snd d))]
             \<in> set (trace (servePlugin uses env p s))"
    if "p_name p \<noteq> []" "findPluginDir env p = Some dir"
      "dropWhile (\<lambda>d. uses (snd d)) (existing env dir (candidateDirs p)) = d # rest" for d rest
    using that by (rule servePlugin_logs_throw)
  show ?thesis
    using c m all l by (metis (no_types, lifting))
qed


lemmas string_eval = startsWith_def endsWith_def isStaticRoute_def basePath_def route_dir_def

lemma ex_portal_candidates:
  "candidateDirs ex_portal = commonDirs @ [(''portal/dist'', ''/portal'')]"
  by (simp add: candidateDirs_def pushRouteDirs_eq ex_portal_def ex_plugin_def ex_route_def
        string_eval)

lemma ex_portal_existing:
  "existing (ex_env ex_disk) ''/srv/node_modules/portal'' (candidateDirs ex_portal) =
     [(''dist/assets'', ''/assets''), (''dist'', ''/''), (''portal/dist'', ''/portal'')]"
  by (simp add: ex_portal_candidates existing_def commonDirs_def ex_env_def ex_disk_def ex_join_def)

lemma ex_broken_candidates:
  "candidateDirs ex_broken = commonDirs @ [(''(x/dist'', ''/(x''), (''z/dist'', ''/z'')]"
  by (simp add: candidateDirs_def pushRouteDirs_eq ex_broken_def ex_plugin_def ex_route_def
        string_eval)

lemma ex_broken_existing:
  "existing (ex_env ex_broken_disk) ''/srv/node_modules/broken'' (candidateDirs ex_broken) =
     [(''dist'', ''/''), (''(x/dist'', ''/(x''), (''z/dist'', ''/z'')]"
  by (simp add: ex_broken_candidates existing_def commonDirs_def ex_env_def ex_broken_disk_def
        ex_join_def)

lemma ex_env_join: "path_join (ex_env ds) a b = a @ ''/'' @ b"
  by (simp add: ex_env_def ex_join_def)

lemma ex_dirs:
  "p_name ex_portal \<noteq> []"
  "findPluginDir (ex_env ex_disk) ex_portal = Some ''/srv/node_modules/portal''"
  "p_name ex_broken \<noteq> []"
  "findPluginDir (ex_env ex_broken_disk) ex_broken = Some ''/srv/node_modules/broken''"
  by (simp_all add: findPluginDir_def ex_env_def ex_disk_def ex_broken_disk_def ex_join_def
        ex_portal_def ex_broken_def ex_plugin_def)

theorem plugin_asset_candidates_witness:
  "candidateDirs ex_portal = commonDirs @ [(''portal/dist'', ''/portal'')] \<and>
   app (servePlugin use_all (ex_env ex_disk) ex_portal (new_server ''test'')) =
     [StaticMount ''/assets'' ''/srv/node_modules/portal/dist/assets'',
      StaticMount ''/'' ''/srv/node_modules/portal/dist'',
      StaticMount ''/portal'' ''/srv/node_modules/portal/portal/dist''] \<and>
   app (servePlugin (reject_mount ''/(x'') (ex_env ex_broken_disk) ex_broken (new_server ''test'')) =
     [StaticMount ''/'' ''/srv/node_modules/broken/dist''] \<and>
   Logged Err ''Error setting up static assets for plugin''
     [S ''broken'', E (StaticMountError ''/(x'')]
     \<in> set (trace (servePlugin (reject_mount ''/(x'') (ex_env ex_broken_disk) ex_broken
                      (new_server ''test'')))"
proof -
  have a0: "app (new_server ''test'') = []" by (simp add: new_server_def)
  have acc: "\<forall>d\<in>set (existing (ex_env ex_disk) ''/srv/node_modules/portal''
               (candidateDirs ex_portal)). use_all (snd d)"
    by (simp add: use_all_def)
  from plugin_asset_candidates[of ex_portal "ex_env ex_disk" "''/srv/node_modules/portal''"
      use_all "new_server ''test''"] ex_dirs(1,2) acc
  have one: "app (servePlugin use_all (ex_env ex_disk) ex_portal (new_server ''test'')) =
      app (new_server ''test'') @ map (static_mount (ex_env ex_disk) ''/srv/node_modules/portal'')
        (existing (ex_env ex_disk) ''/srv/node_modules/portal'' (candidateDirs ex_portal))"
    by blast
  have dw: "dropWhile (\<lambda>d. reject_mount ''/(x'' (snd d))
              (existing (ex_env ex_broken_disk) ''/srv/node_modules/broken''
                 (candidateDirs ex_broken)) = (''(x/dist'', ''/(x'') # [(''z/dist'', ''/z'')]"
    by (simp add: ex_broken_existing reject_mount_def)
  from plugin_asset_candidates[of ex_broken "ex_env ex_broken_disk" "''/srv/node_modules/broken''"
      "reject_mount ''/(x''" "new_server ''test''"] ex_dirs(3,4)
  have two: "app (servePlugin (reject_mount ''/(x'') (ex_env ex_broken_disk) ex_broken
                    (new_server ''test'')) =
      app (new_server ''test'') @ map (static_mount (ex_env ex_broken_disk) ''/srv/node_modules/broken'')
        (takeWhile (\<lambda>d. reject_mount ''/(x'' (snd d))
           (existing (ex_env ex_broken_disk) ''/srv/node_modules/broken'' (candidateDirs ex_broken)))"
    and three: "\<forall>d rest.
         dropWhile (\<lambda>d. reject_mount ''/(x'' (snd d))
           (existing (ex_env ex_broken_disk) ''/srv/node_modules/broken'' (candidateDirs ex_broken))
           = d # rest \<longrightarrow>
           Logged Err ''Error setting up static assets for plugin''
             [S (p_name ex_broken), E (StaticMountError (snd d))]
             \<in> set (trace (servePlugin (reject_mount ''/(x'') (ex_env ex_broken_disk) ex_broken
                              (new_server ''test'')))"
    by blast+
  have lg: "Logged Err ''Error setting up static assets for plugin''
             [S (p_name ex_broken), E (StaticMountError (snd (''(x/dist'', ''/(x'')))]
             \<in> set (trace (servePlugin (reject_mount ''/(x'') (ex_env ex_broken_disk) ex_broken
                              (new_server ''test'')))"
    using three dw by blast
  have nm: "p_name ex_broken = ''broken''" by (simp add: ex_broken_def ex_plugin_def)
  have p2: "app (servePlugin use_all (ex_env ex_disk) ex_portal (new_server ''test'')) =
     [StaticMount ''/assets'' ''/srv/node_modules/portal/dist/assets'',
      StaticMount ''/'' ''/srv/node_modules/portal/dist'',
      StaticMount ''/portal'' ''/srv/node_modules/portal/portal/dist'']"
    using one by (simp add: a0 ex_portal_existing static_mount_def ex_env_join)
  have p3: "app (servePlugin (reject_mount ''/(x'') (ex_env ex_broken_disk) ex_broken
                   (new_server ''test'')) = [StaticMount ''/'' ''/srv/node_modules/broken/dist'']"
    using two by (simp add: a0 ex_broken_existing static_mount_def reject_mount_def ex_env_join)
  have p4: "Logged Err ''Error setting up static assets for plugin''
     [S ''broken'', E (StaticMountError ''/(x'')]
     \<in> set (trace (servePlugin (reject_mount ''/(x'') (ex_env ex_broken_disk) ex_broken
                      (new_server ''test'')))"
    using lg by (simp add: nm)
  show ?thesis using ex_portal_candidates p2 p3 p4 by blast
qed

text \<open>
  C6 as stated fails twice. The route \<open>GET /*\<close> qualifies, but its base path is empty,
  so no candidate is appended for it. And a plugin with the existing candidates
  \<open>dist\<close>, \<open>(x/dist\<close> and \<open>z/dist\<close>, on an Express that throws on the mount path
  \<open>/(x\<close>, gets the mount of \<open>dist\<close> only: \<open>z/dist\<close> exists and is not mounted.
\<close>

theorem root_wildcard_route_counterexample:
  "isStaticRoute (ex_route ''GET'' ''/*'' 4) \<and>
   candidateDirs (ex_plugin ''portal'' [ex_route ''GET'' ''/*'' 4]) = commonDirs \<and>
   length (candidateDirs (ex_plugin ''portal'' [ex_route ''GET'' ''/*'' 4])) = 7 \<and>
   existing (ex_env ex_broken_disk) ''/srv/node_modules/broken'' (candidateDirs ex_broken) =
     [(''dist'', ''/''), (''(x/dist'', ''/(x''), (''z/dist'', ''/z'')] \<and>
   app (servePlugin (reject_mount ''/(x'') (ex_env ex_broken_disk) ex_broken (new_server ''test'')) =
     [StaticMount ''/'' ''/srv/node_modules/broken/dist'']"
proof -
  have a: "isStaticRoute (ex_route ''GET'' ''/*'' 4) \<and>
      candidateDirs (ex_plugin ''portal'' [ex_route ''GET'' ''/*'' 4]) = commonDirs \<and>
      length (candidateDirs (ex_plugin ''portal'' [ex_route ''GET'' ''/*'' 4])) = 7"
    by (simp add: candidateDirs_def commonDirs_def ex_plugin_def ex_route_def
          startsWith_def endsWith_def isStaticRoute_def basePath_def)
  have b: "app (servePlugin (reject_mount ''/(x'') (ex_env ex_broken_disk) ex_broken
                  (new_server ''test'')) = [StaticMount ''/'' ''/srv/node_modules/broken/dist'']"
    by (simp add: servePlugin_app[OF ex_dirs(3,4)] ex_broken_existing reject_mount_def
          static_mount_def new_server_def ex_env_join)
  show ?thesis using a b ex_broken_existing by blast
qed

subsection \<open>What the operations keep\<close>

text \<open>
  The hypotheses of C4 and C8 hold on the states the operations produce: the keys of
  the map are distinct on a new server and stay distinct (\<open>registerAgent\<close> keeps them
  so by C4, \<open>unregisterAgent\<close> by the lemma below, and nothing else writes the map);
  \<open>pending_ok\<close> holds on a new server, is kept by \<open>start\<close>, by the shutdown handler,
  by \<open>stop\<close> and by \<open>unregisterAgent\<close>, and gives the two hypotheses of C8.
\<close>

lemma distinct_ids_new_server: "distinct (agent_ids (new_server env))"
  by (simp add: agent_ids_def new_server_def)

lemma distinct_ids_unregister:
  "distinct (agent_ids s) \<Longrightarrow> distinct (agent_ids (unregisterAgent aid s))"
  by (simp add: unregisterAgent_def agent_ids_def map_delete_keys)

lemma pending_ok_new_server: "pending_ok (new_server env)"
  by (simp add: pending_ok_def new_server_def)

lemma pending_ok_start: "pending_ok s \<Longrightarrow> pending_ok (snd (start listens port s))"
  by (simp add: pending_ok_def start_def failStart_def Let_def)

lemma pending_ok_gracefulShutdown: "pending_ok s \<Longrightarrow> pending_ok (gracefulShutdown s)"
  by (cases "server s")
    (simp_all add: pending_ok_def gracefulShutdown_server gracefulShutdown_no_server)

lemma pending_ok_stop: "pending_ok s \<Longrightarrow> pending_ok (stop s)"
  by (cases "server s") (simp_all add: pending_ok_def stop_def server_close_def)

lemma pending_ok_unregister: "pending_ok s \<Longrightarrow> pending_ok (unregisterAgent aid s)"
  by (simp add: pending_ok_def unregisterAgent_def)

lemma pending_okD:
  "pending_ok s \<Longrightarrow> server s = Some srv \<Longrightarrow>
     ForceExit \<notin> set (srv_on_close srv) \<and> (\<forall>t\<in>set (timers s). snd t = ForceExit)"
  by (simp add: pending_ok_def list_all_iff)

end
